theory Spec2Isabelle
  imports Complex_Main "HOL-Library.Word" "HOL-Library.Signed_Division"
begin

unbundle bit_operations_syntax

section \<open>Machine types and byte encoding\<close>

text \<open>
  codecbench is a Windows program: \<open>int\<close> and \<open>LONG\<close> are 32-bit two's complement,
  \<open>DWORD\<close> and \<open>uint32_t\<close> are 32-bit unsigned, \<open>WORD\<close> is 16-bit unsigned, and values
  are stored in memory and in files least significant byte first. All of them are words
  here; signed operations read a word through \<open>sint\<close>. Signed overflow, which C++ leaves
  undefined, wraps around as it does on the target machines; the theorems below say where
  they depend on it.
\<close>

type_synonym byte = "8 word"
type_synonym WORD = "16 word"
type_synonym DWORD = "32 word"
type_synonym LONG = "32 word"
type_synonym cint = "32 word"

definition le16 :: "WORD \<Rightarrow> byte list" where
  "le16 w = [ucast w, ucast (drop_bit 8 w)]"

definition le32 :: "DWORD \<Rightarrow> byte list" where
  "le32 w = [ucast w, ucast (drop_bit 8 w), ucast (drop_bit 16 w), ucast (drop_bit 24 w)]"

definition le32_decode :: "byte list \<Rightarrow> DWORD" where
  "le32_decode bs =
     ucast (bs ! 0) OR push_bit 8 (ucast (bs ! 1)) OR push_bit 16 (ucast (bs ! 2))
       OR push_bit 24 (ucast (bs ! 3))"

text \<open>Signed comparison, \<open>abs\<close> and signed division of C, on 32-bit words.\<close>

definition sless :: "cint \<Rightarrow> cint \<Rightarrow> bool" where
  "sless a b = (sint a < sint b)"

definition c_abs :: "cint \<Rightarrow> cint" where
  "c_abs x = (if sless x 0 then - x else x)"

definition c_sdiv :: "cint \<Rightarrow> cint \<Rightarrow> cint" where
  "c_sdiv a b = word_of_int (sint a sdiv sint b)"

section \<open>Errors\<close>

text \<open>Every \<open>throw\<close> statement of the program throws a \<open>std::runtime_error\<close> carrying its
  message. The exceptions that the standard library throws from \<open>std::vector::resize\<close> are
  modelled with the frame buffer of the reader, below.\<close>

datatype error = runtime_error string


section \<open>The format descriptor and GetDecompFormat\<close>

text \<open>
  \<open>BITMAPINFOHEADER\<close> is declared by the platform header \<open>wingdi.h\<close>, not by the
  repository: eleven fields, 40 bytes, in the order below. \<open>BI_RGB\<close> and \<open>mmioFOURCC\<close> are
  the platform's constant and macro.
\<close>

record BITMAPINFOHEADER =
  biSize :: DWORD
  biWidth :: LONG
  biHeight :: LONG
  biPlanes :: WORD
  biBitCount :: WORD
  biCompression :: DWORD
  biSizeImage :: DWORD
  biXPelsPerMeter :: LONG
  biYPelsPerMeter :: LONG
  biClrUsed :: DWORD
  biClrImportant :: DWORD

definition sizeof_BITMAPINFOHEADER :: nat where
  "sizeof_BITMAPINFOHEADER = 40"

definition BI_RGB :: DWORD where
  "BI_RGB = 0"

definition mmioFOURCC :: "char \<Rightarrow> char \<Rightarrow> char \<Rightarrow> char \<Rightarrow> DWORD" where
  "mmioFOURCC c0 c1 c2 c3 =
     of_char c0 OR push_bit 8 (of_char c1) OR push_bit 16 (of_char c2) OR push_bit 24 (of_char c3)"

text \<open>The bytes of the struct in memory, as \<open>memcpy\<close> and \<open>write\<close> see them.\<close>

definition bih_bytes :: "BITMAPINFOHEADER \<Rightarrow> byte list" where
  "bih_bytes b =
     le32 (biSize b) @ le32 (biWidth b) @ le32 (biHeight b) @ le16 (biPlanes b)
       @ le16 (biBitCount b) @ le32 (biCompression b) @ le32 (biSizeImage b)
       @ le32 (biXPelsPerMeter b) @ le32 (biYPelsPerMeter b) @ le32 (biClrUsed b)
       @ le32 (biClrImportant b)"

text \<open>Reading the fields \<open>biSize\<close> (offset 0) and \<open>biSizeImage\<close> (offset 20) through a
  \<open>BITMAPINFOHEADER*\<close> that points at a byte buffer.\<close>

definition buf_biSize :: "byte list \<Rightarrow> DWORD" where
  "buf_biSize buf = le32_decode (take 4 buf)"

definition buf_biSizeImage :: "byte list \<Rightarrow> DWORD" where
  "buf_biSizeImage buf = le32_decode (take 4 (drop 20 buf))"

text \<open>
  \<open>align_to<4>(val)\<close> is \<open>(T)((uintptr_t(val) + 3) / 4 * 4)\<close>: an unsigned computation,
  cut back to the 32 bits of \<open>T = LONG\<close>. A 64-bit \<open>uintptr_t\<close> gives the same low 32 bits,
  since 4 divides \<open>2 ^ 32\<close>.
\<close>

definition align_to4 :: "LONG \<Rightarrow> LONG" where
  "align_to4 val = (val + 3) div 4 * 4"

text \<open>The fields every branch of \<open>GetDecompFormat\<close> sets before the name is looked at
  (\<open>memset\<close> to zero, then \<open>biSize\<close>, \<open>biWidth\<close>, \<open>biHeight\<close>, \<open>biPlanes\<close>).\<close>

definition bih_init :: "cint \<Rightarrow> cint \<Rightarrow> BITMAPINFOHEADER" where
  "bih_init width height =
     \<lparr> biSize = of_nat sizeof_BITMAPINFOHEADER, biWidth = width, biHeight = height,
       biPlanes = 1, biBitCount = 0, biCompression = 0, biSizeImage = 0,
       biXPelsPerMeter = 0, biYPelsPerMeter = 0, biClrUsed = 0, biClrImportant = 0 \<rparr>"

definition GetDecompFormat :: "string \<Rightarrow> cint \<Rightarrow> cint \<Rightarrow> error + BITMAPINFOHEADER" where
  "GetDecompFormat format width height =
    (let b = bih_init width height; w = biWidth b; ah = c_abs (biHeight b) in
     if format = ''RGB24'' \<or> format = ''bgr24'' then
       Inr (b\<lparr>biBitCount := 24, biCompression := BI_RGB,
               biSizeImage := align_to4 (w * 3) * ah\<rparr>)
     else if format = ''RGB32'' \<or> format = ''bgr32'' then
       Inr (b\<lparr>biBitCount := 32, biCompression := BI_RGB, biSizeImage := w * 4 * ah\<rparr>)
     else if format = ''BGRA'' then
       Inr (b\<lparr>biBitCount := 32, biCompression := mmioFOURCC CHR ''B'' CHR ''G'' CHR ''R'' CHR ''A'',
               biSizeImage := w * 4 * ah\<rparr>)
     else if format = ''AYUV'' then
       Inr (b\<lparr>biBitCount := 32, biCompression := mmioFOURCC CHR ''A'' CHR ''Y'' CHR ''U'' CHR ''V'',
               biSizeImage := w * 4 * ah\<rparr>)
     else if format = ''YUY2'' then
       Inr (b\<lparr>biBitCount := 16, biCompression := mmioFOURCC CHR ''Y'' CHR ''U'' CHR ''Y'' CHR ''2'',
               biSizeImage := w * 2 * ah\<rparr>)
     else if format = ''UYVY'' then
       Inr (b\<lparr>biBitCount := 16, biCompression := mmioFOURCC CHR ''U'' CHR ''Y'' CHR ''V'' CHR ''Y'',
               biSizeImage := w * 2 * ah\<rparr>)
     else if format = ''YV12'' then
       Inr (b\<lparr>biBitCount := 12, biCompression := mmioFOURCC CHR ''Y'' CHR ''V'' CHR ''1'' CHR ''2'',
               biSizeImage := c_sdiv (w * ah * 3) 2\<rparr>)
     else if format = ''YV24'' then
       Inr (b\<lparr>biBitCount := 24, biCompression := mmioFOURCC CHR ''Y'' CHR ''V'' CHR ''2'' CHR ''4'',
               biSizeImage := w * ah * 3\<rparr>)
     else if format = ''Y8'' then
       Inr (b\<lparr>biBitCount := 8, biCompression := mmioFOURCC CHR ''Y'' CHR ''8'' CHR '' '' CHR '' '',
               biSizeImage := w * ah\<rparr>)
     else if format = ''b64a'' then
       Inr (b\<lparr>biBitCount := 64, biCompression := mmioFOURCC CHR ''b'' CHR ''6'' CHR ''4'' CHR ''a'',
               biSizeImage := w * 8 * ah\<rparr>)
     else if format = ''b48r'' then
       Inr (b\<lparr>biBitCount := 48, biCompression := mmioFOURCC CHR ''b'' CHR ''4'' CHR ''8'' CHR ''r'',
               biSizeImage := w * 6 * ah\<rparr>)
     else if format = ''v210'' then
       Inr (b\<lparr>biBitCount := 20, biCompression := mmioFOURCC CHR ''v'' CHR ''2'' CHR ''1'' CHR ''0'',
               biSizeImage := c_sdiv (w + 47) 48 * 128 * ah\<rparr>)
     else if format = ''r210'' then
       Inr (b\<lparr>biBitCount := 30, biCompression := mmioFOURCC CHR ''r'' CHR ''2'' CHR ''1'' CHR ''0'',
               biSizeImage := c_sdiv (w + 63) 64 * 256 * ah\<rparr>)
     else Inl (runtime_error (''Invalid requested decompressed format: '' @ format)))"

text \<open>The frame byte size \<open>GetDecompFormat\<close> stores for the C \<open>int\<close>s \<open>w\<close> and \<open>h\<close>, read as
  the unsigned \<open>DWORD\<close> it is; \<open>None\<close> when the name is refused.\<close>

definition frame_byte_size :: "string \<Rightarrow> int \<Rightarrow> int \<Rightarrow> int option" where
  "frame_byte_size format w h =
     (case GetDecompFormat format (word_of_int w) (word_of_int h) of
        Inl e \<Rightarrow> None
      | Inr b \<Rightarrow> Some (uint (biSizeImage b)))"

text \<open>The format names of the usage text.\<close>

definition supported_formats :: "string list" where
  "supported_formats =
     [''RGB24'', ''bgr24'', ''RGB32'', ''bgr32'', ''BGRA'', ''AYUV'', ''YUY2'', ''UYVY'',
      ''YV12'', ''YV24'', ''Y8'', ''b64a'', ''b48r'', ''v210'', ''r210'']"


section \<open>The input stream\<close>

text \<open>
  A \<open>std::ifstream\<close> opened in binary mode: the bytes of the file, the read position and
  the state bits (\<open>badbit\<close> is never set here: the device itself does not fail).
  \<open>read\<close> of \<open>n\<close> bytes does nothing but set \<open>failbit\<close> when the stream is not \<open>good()\<close>;
  otherwise it delivers the bytes there are, and sets \<open>eofbit\<close> and \<open>failbit\<close> when they
  are fewer than \<open>n\<close>.
\<close>

record istream =
  content :: "byte list"
  pos :: nat
  eofbit :: bool
  failbit :: bool

definition good :: "istream \<Rightarrow> bool" where
  "good s = (\<not> eofbit s \<and> \<not> failbit s)"

definition istream_read :: "nat \<Rightarrow> istream \<Rightarrow> byte list \<times> istream" where
  "istream_read n s =
     (if \<not> good s then ([], s\<lparr>failbit := True\<rparr>)
      else let got = take n (drop (pos s) (content s)) in
        (got, s\<lparr>pos := pos s + length got,
                eofbit := length got < n, failbit := length got < n\<rparr>))"

text \<open>\<open>clear()\<close> followed by \<open>seekg(off, beg)\<close>. A file position past the end is accepted.\<close>

definition clear_seekg :: "nat \<Rightarrow> istream \<Rightarrow> istream" where
  "clear_seekg off s = s\<lparr>pos := off, eofbit := False, failbit := False\<rparr>"

text \<open>What a destination buffer holds after \<open>read\<close> stored the bytes \<open>got\<close> at its start.\<close>

definition overlay :: "byte list \<Rightarrow> byte list \<Rightarrow> byte list" where
  "overlay got buf = got @ drop (length got) buf"

text \<open>\<open>std::vector<char>::resize\<close>, when it returns: cut, or extended with zero bytes.
  The call with its exceptions is \<open>vector_resize\<close> below.\<close>

definition resize :: "nat \<Rightarrow> byte list \<Rightarrow> byte list" where
  "resize n buf = take n buf @ replicate (n - length buf) 0"

text \<open>
  \<open>readVar<uint32_t>\<close> declares \<open>T var\<close> without initialising it, reads \<open>sizeof(var)\<close> bytes
  over it and returns it. The parameter \<open>uninit\<close> is the indeterminate value \<open>var\<close> holds
  before the read; the bytes the read did not deliver keep it.
\<close>

definition readVar :: "DWORD \<Rightarrow> istream \<Rightarrow> DWORD \<times> istream" where
  "readVar uninit s =
     (let (got, s') = istream_read 4 s in (le32_decode (overlay got (le32 uninit)), s'))"

section \<open>VideoReader\<close>

record VideoReader =
  m_frameBuf :: "byte list"
  m_frameSize :: DWORD
  m_inFile :: istream
  m_biFormat :: "byte list"
  m_headerSize :: DWORD
  m_raw :: bool

text \<open>A reader as \<open>CodecBench\<close> constructs it: an empty frame buffer, a zeroed descriptor
  buffer of \<open>sizeof(BITMAPINFOHEADER)\<close> bytes, no file. The scalar members are not
  initialised by the class; every one is written before it is read, except as
  \<open>readVar\<close> says.\<close>

definition VideoReader_new :: VideoReader where
  "VideoReader_new =
     \<lparr> m_frameBuf = [], m_frameSize = 0,
       m_inFile = \<lparr>content = [], pos = 0, eofbit = False, failbit = True\<rparr>,
       m_biFormat = replicate sizeof_BITMAPINFOHEADER 0, m_headerSize = 0, m_raw = False \<rparr>"

text \<open>The file system, as far as opening a file for reading goes: the bytes of the file, or
  \<open>None\<close> when it cannot be opened.\<close>

type_synonym files = "string \<Rightarrow> byte list option"

definition ifstream_open :: "byte list \<Rightarrow> istream" where
  "ifstream_open bytes = \<lparr>content = bytes, pos = 0, eofbit = False, failbit = False\<rparr>"

definition openRaw ::
  "files \<Rightarrow> string \<Rightarrow> string \<Rightarrow> cint \<Rightarrow> cint \<Rightarrow> VideoReader \<Rightarrow> error + VideoReader" where
  "openRaw fs infile format width height r =
     (case GetDecompFormat format width height of
        Inl e \<Rightarrow> Inl e
      | Inr b \<Rightarrow>
         (case fs infile of
            None \<Rightarrow> Inl (runtime_error (''ERROR: Failed to open file: '' @ infile))
          | Some bytes \<Rightarrow>
              Inr (r\<lparr>m_biFormat := overlay (bih_bytes b) (m_biFormat r),
                     m_inFile := ifstream_open bytes, m_raw := True, m_headerSize := 0\<rparr>)))"

text \<open>\<open>VideoReader::open\<close>; \<open>u1\<close> and \<open>u2\<close> are the indeterminate values of its two
  \<open>readVar\<close> calls. Only the magic is checked: a short read of the size or of the format
  block goes unnoticed here.\<close>

definition VideoReader_open ::
  "files \<Rightarrow> DWORD \<Rightarrow> DWORD \<Rightarrow> string \<Rightarrow> VideoReader \<Rightarrow> error + VideoReader" where
  "VideoReader_open fs u1 u2 infile r =
     (case fs infile of
        None \<Rightarrow> Inl (runtime_error (''ERROR: Failed to open file: '' @ infile))
      | Some bytes \<Rightarrow>
          (let (magic, s1) = readVar u1 (ifstream_open bytes) in
           if magic \<noteq> 0xABCDEF01 then Inl (runtime_error ''ERROR: Invalid file magic'')
           else
             let (formatSize, s2) = readVar u2 s1;
                 buf = resize (unat formatSize) (m_biFormat r);
                 (got, s3) = istream_read (unat formatSize) s2
             in Inr (r\<lparr>m_inFile := s3, m_raw := False, m_biFormat := overlay got buf,
                       m_headerSize := 8 + formatSize\<rparr>)))"

definition readFrame :: "DWORD \<Rightarrow> VideoReader \<Rightarrow> bool \<times> VideoReader" where
  "readFrame uninit r =
     (if eofbit (m_inFile r) then (False, r)
      else
        let (sz, s1) = (if m_raw r then (buf_biSizeImage (m_biFormat r), m_inFile r)
                        else readVar uninit (m_inFile r));
            buf = (if length (m_frameBuf r) < unat sz then resize (unat sz) (m_frameBuf r)
                   else m_frameBuf r);
            (got, s2) = istream_read (unat sz) s1
        in (\<not> failbit s2, r\<lparr>m_frameSize := sz, m_frameBuf := overlay got buf, m_inFile := s2\<rparr>))"

definition rewind :: "VideoReader \<Rightarrow> VideoReader" where
  "rewind r = r\<lparr>m_inFile := clear_seekg (unat (m_headerSize r)) (m_inFile r)\<rparr>"

text \<open>The frame a caller sees after a call of \<open>readFrame\<close>: \<open>frameSize()\<close> and the first
  \<open>frameSize()\<close> bytes at \<open>frameData()\<close> when the call returned true, nothing (end of
  stream) when it returned false.\<close>

definition frame_of :: "VideoReader \<Rightarrow> DWORD \<times> byte list" where
  "frame_of r = (m_frameSize r, take (unat (m_frameSize r)) (m_frameBuf r))"

definition frame_result :: "bool \<times> VideoReader \<Rightarrow> (DWORD \<times> byte list) option" where
  "frame_result res = (if fst res then Some (frame_of (snd res)) else None)"

text \<open>Calling \<open>readFrame\<close> once for every element of \<open>us\<close> (the indeterminate values), and
  the frames seen.\<close>

fun readFrames :: "DWORD list \<Rightarrow> VideoReader \<Rightarrow> (DWORD \<times> byte list) option list \<times> VideoReader" where
  "readFrames [] r = ([], r)"
| "readFrames (u # us) r =
     (let res = readFrame u r; (fs, r') = readFrames us (snd res) in (frame_result res # fs, r'))"

subsection \<open>The exceptions of the frame buffer\<close>








section \<open>VideoWriter\<close>

text \<open>The output file is the list of bytes written so far. \<open>write\<close> of \<open>n\<close> bytes at a pointer
  is \<open>take n\<close> of the memory there; the callers pass at least \<open>n\<close> bytes.\<close>

record VideoWriter =
  m_outFile :: "byte list"
  m_raw_w :: bool

definition writeVar :: "DWORD \<Rightarrow> byte list \<Rightarrow> byte list" where
  "writeVar var out = out @ le32 var"

definition VideoWriter_open ::
  "(string \<Rightarrow> bool) \<Rightarrow> string \<Rightarrow> byte list option \<Rightarrow> error + VideoWriter" where
  "VideoWriter_open creatable outfile biFormat =
     (if \<not> creatable outfile then Inl (runtime_error (''ERROR: Failed to open file: '' @ outfile))
      else case biFormat of
             None \<Rightarrow> Inr \<lparr>m_outFile = [], m_raw_w = True\<rparr>
           | Some bi \<Rightarrow>
               Inr \<lparr>m_outFile =
                      writeVar (buf_biSize bi) (writeVar 0xABCDEF01 [])
                        @ take (unat (buf_biSize bi)) bi,
                    m_raw_w = False\<rparr>)"

definition writeFrame :: "byte list \<Rightarrow> DWORD \<Rightarrow> VideoWriter \<Rightarrow> VideoWriter" where
  "writeFrame data frameSize w =
     w\<lparr>m_outFile :=
         (if m_raw_w w then m_outFile w else writeVar frameSize (m_outFile w))
           @ take (unat frameSize) data\<rparr>"

text \<open>
  The next complete frame of the stream at its read position, as the container format
  defines it: a 4-byte length and that many bytes after it (container), or
  \<open>biSizeImage\<close> bytes (raw); \<open>None\<close> when the stream is not readable or the bytes left
  do not hold a whole frame.
\<close>

definition complete_frame :: "VideoReader \<Rightarrow> (DWORD \<times> byte list) option" where
  "complete_frame r =
     (let s = m_inFile r; avail = drop (pos s) (content s) in
      if \<not> good s then None
      else if m_raw r then
        (let n = buf_biSizeImage (m_biFormat r) in
         if unat n \<le> length avail then Some (n, take (unat n) avail) else None)
      else if length avail < 4 then None
      else
        (let n = le32_decode (take 4 avail) in
         if unat n \<le> length avail - 4 then Some (n, take (unat n) (drop 4 avail)) else None))"

section \<open>Concrete inputs\<close>



text \<open>A container file whose format block is \<open>2 ^ 32 - 8\<close> bytes long, followed by one
  frame of one byte, and the reader \<open>VideoReader::open\<close> leaves on it.\<close>

definition big_block :: "byte list" where
  "big_block = replicate 4294967288 0"

definition big_header_file :: "byte list" where
  "big_header_file = le32 0xABCDEF01 @ le32 0xFFFFFFF8 @ big_block @ le32 1 @ [7]"

definition big_header_reader :: VideoReader where
  "big_header_reader =
     VideoReader_new\<lparr>m_inFile := \<lparr>content = big_header_file, pos = 4294967296,
                                   eofbit = False, failbit = False\<rparr>,
                      m_raw := False, m_biFormat := big_block, m_headerSize := 0\<rparr>"

section \<open>Timer\<close>

text \<open>\<open>QueryPerformanceCounter\<close> is the platform's: its readings are a parameter. \<open>begin\<close>
  and \<open>end\<close> each take one reading.\<close>

record Timer =
  startCount :: "64 word"
  endCount :: "64 word"
  sumCounts :: "64 word"
  numSamples :: "64 word"

definition Timer_new :: Timer where
  "Timer_new = \<lparr>startCount = 0, endCount = 0, sumCounts = 0, numSamples = 0\<rparr>"

definition Timer_begin :: "64 word \<Rightarrow> Timer \<Rightarrow> Timer" where
  "Timer_begin now t = t\<lparr>startCount := now\<rparr>"

definition Timer_end :: "64 word \<Rightarrow> Timer \<Rightarrow> Timer" where
  "Timer_end now t =
     t\<lparr>endCount := now, sumCounts := sumCounts t + (now - startCount t),
       numSamples := numSamples t + 1\<rparr>"

section \<open>ArgvParser\<close>

text \<open>\<open>argmap\<close> maps a switch to its parameter, \<open>None\<close> for the null pointer the
  constructor stores when the switch has none (yet).\<close>

record ArgvParser =
  argmap :: "string \<rightharpoonup> string option"
  arglist :: "string list"

definition is_switch :: "string \<Rightarrow> bool" where
  "is_switch a = (case a of [] \<Rightarrow> False | c # cs \<Rightarrow> c = CHR ''-'')"

text \<open>The constructor's loop over \<open>argv[1]\<close>, \<open>argv[2]\<close>, ... with its variable \<open>lastarg\<close>.\<close>

fun parse_argv :: "string list \<Rightarrow> string option \<Rightarrow> ArgvParser \<Rightarrow> ArgvParser" where
  "parse_argv [] lastarg p = p"
| "parse_argv (a # as) lastarg p =
     (if is_switch a then parse_argv as (Some a) (p\<lparr>argmap := (argmap p)(a \<mapsto> None)\<rparr>)
      else case lastarg of
             Some l \<Rightarrow> parse_argv as None (p\<lparr>argmap := (argmap p)(l \<mapsto> Some a)\<rparr>)
           | None \<Rightarrow> parse_argv as None (p\<lparr>arglist := arglist p @ [a]\<rparr>))"

definition ArgvParser_new :: "string list \<Rightarrow> ArgvParser" where
  "ArgvParser_new argv = parse_argv (tl argv) None \<lparr>argmap = Map.empty, arglist = []\<rparr>"

definition hasArg :: "ArgvParser \<Rightarrow> string \<Rightarrow> bool \<Rightarrow> error + bool" where
  "hasArg p arg allowParam =
     (case argmap p arg of
        None \<Rightarrow> Inr False
      | Some v \<Rightarrow>
          if \<not> allowParam \<and> v \<noteq> None
          then Inl (runtime_error (''ERROR: '' @ [CHR 0x27] @ arg @ [CHR 0x27] @ '' does not accept arguments''))
          else Inr True)"

definition getArg :: "ArgvParser \<Rightarrow> string \<Rightarrow> string option \<Rightarrow> error + string option" where
  "getArg p arg defVal =
     (case argmap p arg of
        None \<Rightarrow> Inr defVal
      | Some None \<Rightarrow>
          Inl (runtime_error (''ERROR: Missing argument for option '' @ [CHR 0x27] @ arg @ [CHR 0x27]))
      | Some (Some v) \<Rightarrow> Inr (Some v))"

text \<open>
  \<open>atoi\<close> is the C library's: white space, an optional sign, decimal digits; what follows
  is ignored, and no digits give 0. \<open>atoi_value\<close> is the number the string denotes. When
  it is outside \<open>int\<close> the C standard leaves the result undefined and the libraries
  differ (one returns \<open>INT_MAX\<close> or \<open>INT_MIN\<close>, one converts to \<open>long\<close> with saturation
  and truncates, one wraps): the result is then what the library at hand gives for the
  number, the parameter \<open>overflow\<close>. A null pointer is never passed: every call has a
  default string.
\<close>

definition isspace :: "char \<Rightarrow> bool" where
  "isspace c = (c = CHR '' '' \<or> c = CHR 0x09 \<or> c = CHR 0x0A \<or> c = CHR 0x0B \<or> c = CHR 0x0C \<or> c = CHR 0x0D)"

definition isdigit :: "char \<Rightarrow> bool" where
  "isdigit c = ((of_char CHR ''0'' :: nat) \<le> of_char c \<and> (of_char c :: nat) \<le> of_char CHR ''9'')"

fun digits_value :: "int \<Rightarrow> string \<Rightarrow> int" where
  "digits_value acc [] = acc"
| "digits_value acc (c # cs) =
     (if isdigit c then digits_value (acc * 10 + (of_char c - of_char CHR ''0'')) cs else acc)"

definition atoi_value :: "string \<Rightarrow> int" where
  "atoi_value s =
     (case dropWhile isspace s of
        [] \<Rightarrow> 0
      | c # cs \<Rightarrow>
          if c = CHR ''-'' then - digits_value 0 cs
          else if c = CHR ''+'' then digits_value 0 cs
          else digits_value 0 (c # cs))"

definition atoi :: "(int \<Rightarrow> cint) \<Rightarrow> string \<Rightarrow> cint" where
  "atoi overflow s =
     (let v = atoi_value s in
      if - (2 ^ 31) \<le> v \<and> v < 2 ^ 31 then word_of_int v else overflow v)"

text \<open>Sequencing of calls that may throw.\<close>

definition attempt :: "error + 'a \<Rightarrow> ('a \<Rightarrow> error + 'b) \<Rightarrow> error + 'b" where
  "attempt m f = (case m of Inl e \<Rightarrow> Inl e | Inr x \<Rightarrow> f x)"

section \<open>The codecs\<close>

text \<open>
  The Video for Windows codec interface is the platform's. Its functions are parameters
  of the model, collected in one record; \<open>'d\<close> is the state behind a decompressor handle
  \<open>HIC\<close>, \<open>'c\<close> the state of a \<open>COMPVARS\<close> block with its compressor. A function that the
  platform lets write through a pointer returns what it wrote. For the functions that
  answer \<open>ICERR_OK\<close> or not, or \<open>TRUE\<close> or not, the truth value says whether they did.
\<close>

record ('d, 'c) vfw =
  ICLocate :: "byte list \<Rightarrow> 'd option"
  ICDecompressQuery :: "'d \<Rightarrow> byte list \<Rightarrow> byte list \<Rightarrow> bool"
  ICDecompressGetFormatSize :: "'d \<Rightarrow> byte list \<Rightarrow> DWORD"
  ICDecompressGetFormat :: "'d \<Rightarrow> byte list \<Rightarrow> byte list \<Rightarrow> bool \<times> byte list"
  ICDecompressBegin :: "'d \<Rightarrow> byte list \<Rightarrow> byte list \<Rightarrow> bool \<times> 'd"
  ICDecompress :: "'d \<Rightarrow> byte list \<Rightarrow> byte list \<Rightarrow> byte list \<Rightarrow> byte list \<Rightarrow> 'd \<times> byte list"
  ICCompressorChoose :: "byte list \<Rightarrow> 'c \<Rightarrow> bool \<times> 'c"
  compvars_hic :: "'c \<Rightarrow> bool"
  compvars_lpbiOut :: "'c \<Rightarrow> byte list option"
  compvars_lpbiIn_biSizeImage :: "'c \<Rightarrow> LONG"
  ICSeqCompressFrameStart :: "'c \<Rightarrow> byte list \<Rightarrow> bool \<times> 'c"
  ICSeqCompressFrame :: "'c \<Rightarrow> byte list \<Rightarrow> LONG \<Rightarrow> 'c \<times> byte list \<times> LONG"

text \<open>\<open>BitmapInfoHeader::operator=(const BITMAPINFOHEADER*)\<close> on the buffer \<open>buf\<close>: nothing
  for a null pointer, else \<open>resize(bih->biSize)\<close> and \<open>memcpy\<close> of \<open>biSize\<close> bytes. The list
  \<open>src\<close> is the memory at the pointer, and the function describes the assignment when
  that memory holds the \<open>biSize\<close> bytes it declares, \<open>unat (buf_biSize src) \<le> length src\<close>:
  the result is then these bytes. For a shorter block \<open>memcpy\<close> reads past its end, and
  what the program does then is undefined; nothing is stated about that case.\<close>

definition bih_assign :: "byte list \<Rightarrow> byte list option \<Rightarrow> byte list" where
  "bih_assign buf bih =
     (case bih of
        None \<Rightarrow> buf
      | Some src \<Rightarrow> overlay (take (unat (buf_biSize src)) src) (resize (unat (buf_biSize src)) buf))"

text \<open>Storing a 32-bit field at byte offset \<open>off\<close> of a buffer.\<close>

definition buf_set32 :: "nat \<Rightarrow> DWORD \<Rightarrow> byte list \<Rightarrow> byte list" where
  "buf_set32 off v buf = take off buf @ take (length buf - off) (le32 v) @ drop (off + 4) buf"

definition buf_get32 :: "nat \<Rightarrow> byte list \<Rightarrow> DWORD" where
  "buf_get32 off buf = le32_decode (take 4 (drop off buf))"

record 'd Decompressor =
  m_hic :: "'d option"
  m_decompressing :: bool
  d_frameBuf :: "byte list"
  m_biFormatIn :: "byte list"
  d_biFormatOut :: "byte list"

definition Decompressor_new :: "'d Decompressor" where
  "Decompressor_new =
     \<lparr> m_hic = None, m_decompressing = False, d_frameBuf = [],
       m_biFormatIn = replicate sizeof_BITMAPINFOHEADER 0,
       d_biFormatOut = replicate sizeof_BITMAPINFOHEADER 0 \<rparr>"

definition Decompressor_init ::
  "('d, 'c) vfw \<Rightarrow> byte list \<Rightarrow> byte list option \<Rightarrow> cint \<Rightarrow> cint \<Rightarrow> 'd Decompressor
     \<Rightarrow> error + 'd Decompressor" where
  "Decompressor_init api biFormatIn biFormatOut width height d =
     (case ICLocate api biFormatIn of
        None \<Rightarrow> Inl (runtime_error (''ERROR: Could not find appropriate decompressor!'' @ [CHR 0x0A]))
      | Some hic \<Rightarrow>
          attempt (case biFormatOut of
                 Some fo \<Rightarrow>
                   if \<not> ICDecompressQuery api hic biFormatIn fo
                   then Inl (runtime_error
                     (''ERROR: The decompressor cannot decompress to the requested format/size'' @ [CHR 0x0A]))
                   else Inr (bih_assign (d_biFormatOut d) (Some fo))
               | None \<Rightarrow>
                   (let decompFormatSize = ICDecompressGetFormatSize api hic biFormatIn in
                    if decompFormatSize = 0 \<or> sless decompFormatSize 0
                    then Inl (runtime_error (''ICDecompressGetFormatSize() failed'' @ [CHR 0x0A]))
                    else
                      (let (ok, out) = ICDecompressGetFormat api hic biFormatIn
                                         (resize (unat decompFormatSize) (d_biFormatOut d)) in
                       if \<not> ok then Inl (runtime_error (''ICDecompressGetFormat() failed'' @ [CHR 0x0A]))
                       else Inr out)))
            (\<lambda>out1.
          attempt (if width \<noteq> 0 \<or> height \<noteq> 0 then
                 (let out2 = (if width \<noteq> 0 then buf_set32 4 width out1 else out1);
                      out3 = (if height \<noteq> 0 then buf_set32 8 height out2 else out2) in
                  if \<not> ICDecompressQuery api hic biFormatIn out3
                  then Inl (runtime_error
                    (''ERROR: The decompressor cannot decompress to the specified size'' @ [CHR 0x0A]))
                  else Inr out3)
               else Inr out1)
            (\<lambda>out.
          (let (ok, hic') = ICDecompressBegin api hic biFormatIn out in
           if \<not> ok then Inl (runtime_error (''ICDecompressBegin() failed'' @ [CHR 0x0A]))
           else Inr (d\<lparr>m_hic := Some hic', m_decompressing := True,
                       d_frameBuf := resize (unat (buf_biSizeImage out)) (d_frameBuf d),
                       m_biFormatIn := bih_assign (m_biFormatIn d) (Some biFormatIn),
                       d_biFormatOut := out\<rparr>)))))"

text \<open>\<open>decompressFrame\<close> stores the frame size in the input descriptor and calls
  \<open>ICDecompress\<close>, which fills the frame buffer. It is only called after \<open>init\<close> set the
  handle; without one nothing is decoded.\<close>

definition decompressFrame ::
  "('d, 'c) vfw \<Rightarrow> byte list \<Rightarrow> DWORD \<Rightarrow> 'd Decompressor \<Rightarrow> 'd Decompressor" where
  "decompressFrame api data dataSize d =
     (let fin = buf_set32 20 dataSize (m_biFormatIn d) in
      case m_hic d of
        None \<Rightarrow> d\<lparr>m_biFormatIn := fin\<rparr>
      | Some hic \<Rightarrow>
          (let (hic', buf) = ICDecompress api hic fin data (d_biFormatOut d) (d_frameBuf d) in
           d\<lparr>m_hic := Some hic', m_biFormatIn := fin, d_frameBuf := buf\<rparr>))"

record 'c Compressor =
  m_compvars :: 'c
  m_compressing :: bool
  c_frameData :: "byte list"
  c_frameSize :: LONG
  c_biFormatOut :: "byte list"

definition Compressor_new :: "'c \<Rightarrow> 'c Compressor" where
  "Compressor_new cv =
     \<lparr> m_compvars = cv, m_compressing = False, c_frameData = [], c_frameSize = 0,
       c_biFormatOut = replicate sizeof_BITMAPINFOHEADER 0 \<rparr>"

text \<open>\<open>Compressor::init\<close>: false means that no compression was selected.\<close>

definition Compressor_init ::
  "('d, 'c) vfw \<Rightarrow> byte list \<Rightarrow> 'c Compressor \<Rightarrow> error + bool \<times> 'c Compressor" where
  "Compressor_init api biFormatIn c =
     (let (chosen, cv) = ICCompressorChoose api biFormatIn (m_compvars c);
          c1 = c\<lparr>m_compressing := False, m_compvars := cv\<rparr> in
      if \<not> chosen then Inl (runtime_error (''Compressor selection was canceled!'' @ [CHR 0x0A]))
      else if \<not> compvars_hic api cv then Inr (False, c1)
      else
        (let (res, cv') = ICSeqCompressFrameStart api cv biFormatIn in
         if \<not> res then Inl (runtime_error (''ERROR: ICSeqCompressFrameStart() failed'' @ [CHR 0x0A]))
         else Inr (True, c1\<lparr>m_compvars := cv', m_compressing := True,
                            c_biFormatOut := bih_assign (c_biFormatOut c1) (compvars_lpbiOut api cv')\<rparr>)))"

definition compressFrame :: "('d, 'c) vfw \<Rightarrow> byte list \<Rightarrow> 'c Compressor \<Rightarrow> 'c Compressor" where
  "compressFrame api data c =
     (let (cv', out, size) =
            ICSeqCompressFrame api (m_compvars c) data (compvars_lpbiIn_biSizeImage api (m_compvars c))
      in c\<lparr>m_compvars := cv', c_frameData := out, c_frameSize := size\<rparr>)"

section \<open>CodecBench\<close>

text \<open>
  What surrounds the program: the file system (the files that can be read, the paths that
  can be created), the codecs, the readings of the performance counter and the
  indeterminate values of \<open>readVar\<close>, both by the number of the loop test they follow. \<open>stop_at = Some k\<close> says that \<open>SIGINT\<close> arrives
  so that loop test number \<open>k\<close> (counted from 0) and all later ones read \<open>s_stop\<close> as true;
  \<open>None\<close> that it never arrives. \<open>atoi_overflow\<close> is what the C library's \<open>atoi\<close> returns
  for a number outside \<open>int\<close>.
\<close>

record ('d, 'c) env =
  filesystem :: files
  can_create :: "string \<Rightarrow> bool"
  vfw_api :: "('d, 'c) vfw"
  counter :: "nat \<Rightarrow> 64 word"
  indeterminate :: "nat \<Rightarrow> DWORD"
  stop_at :: "nat option"
  atoi_overflow :: "int \<Rightarrow> cint"

definition s_stop :: "('d, 'c) env \<Rightarrow> nat \<Rightarrow> bool" where
  "s_stop e i = (case stop_at e of None \<Rightarrow> False | Some k \<Rightarrow> k \<le> i)"

record ('d, 'c) CodecBench =
  m_rawin :: bool
  m_rawout :: bool
  m_decompress :: bool
  m_compress :: bool
  m_infile :: "string option"
  m_outfile :: "string option"
  m_decompFormat :: "string option"
  m_decompWidth :: cint
  m_decompHeight :: cint
  m_framesToProcess :: cint
  m_loopCount :: cint
  m_videoReader :: VideoReader
  m_videoWriter :: VideoWriter
  m_decompressor :: "'d Decompressor"
  m_compressor :: "'c Compressor"
  m_formatDecompressed :: "byte list"
  m_formatCompressed :: "byte list"

definition CodecBench_new :: "'c \<Rightarrow> ('d, 'c) CodecBench" where
  "CodecBench_new cv =
     \<lparr> m_rawin = False, m_rawout = False, m_decompress = False, m_compress = False,
       m_infile = None, m_outfile = None, m_decompFormat = None,
       m_decompWidth = 0, m_decompHeight = 0, m_framesToProcess = 0, m_loopCount = 0,
       m_videoReader = VideoReader_new, m_videoWriter = \<lparr>m_outFile = [], m_raw_w = False\<rparr>,
       m_decompressor = Decompressor_new, m_compressor = Compressor_new cv,
       m_formatDecompressed = replicate sizeof_BITMAPINFOHEADER 0,
       m_formatCompressed = replicate sizeof_BITMAPINFOHEADER 0 \<rparr>"

text \<open>The three warnings of \<open>initArguments\<close>.\<close>

definition warning :: "string \<Rightarrow> string" where
  "warning opt = ''WARNING: ignoring '' @ opt @ '' option because -nd option was given'' @ [CHR 0x0A]"

text \<open>
  \<open>initArguments\<close> returns the warnings it printed with the new state. Of the program's
  output the model keeps these and the message \<open>main\<close> prints for an exception; the usage
  text, the INFO lines and the progress line are left out. \<open>argv\<close> is the whole vector,
  \<open>argc\<close> its length.
\<close>

definition initArguments ::
  "('d, 'c) env \<Rightarrow> string list \<Rightarrow> ('d, 'c) CodecBench
     \<Rightarrow> error + string list \<times> ('d, 'c) CodecBench" where
  "initArguments e argv cb =
     (if length argv < 2 then Inl (runtime_error [])
      else
        let parser = ArgvParser_new argv in
        attempt (hasArg parser ''-rawin'' False) (\<lambda>rawin.
        attempt (hasArg parser ''-rawout'' False) (\<lambda>rawout.
        attempt (if rawin then Inr False else attempt (hasArg parser ''-nd'' False) (\<lambda>b. Inr (\<not> b))) (\<lambda>decompress.
        attempt (if rawout then Inr False else attempt (hasArg parser ''-nc'' False) (\<lambda>b. Inr (\<not> b))) (\<lambda>compress.
        attempt (getArg parser ''-f'' None) (\<lambda>decompFormat.
        attempt (getArg parser ''-w'' (Some ''0'')) (\<lambda>w.
        attempt (getArg parser ''-h'' (Some ''0'')) (\<lambda>h.
        attempt (getArg parser ''-frames'' (Some ''0'')) (\<lambda>frames.
        attempt (getArg parser ''-loop'' (Some ''1'')) (\<lambda>loop.
        attempt (getArg parser ''-i'' None) (\<lambda>infile.
        attempt (getArg parser ''-o'' None) (\<lambda>outfile.
        let decompWidth = atoi (atoi_overflow e) (the w);
            decompHeight = atoi (atoi_overflow e) (the h);
            cb1 = cb\<lparr>m_rawin := rawin, m_rawout := rawout, m_decompress := decompress,
                     m_compress := compress, m_decompFormat := decompFormat,
                     m_decompWidth := decompWidth, m_decompHeight := decompHeight,
                     m_framesToProcess := atoi (atoi_overflow e) (the frames),
                     m_loopCount := atoi (atoi_overflow e) (the loop),
                     m_infile := infile, m_outfile := outfile\<rparr>
        in
        if infile = None then Inl (runtime_error (''ERROR: No input file given (-i)!'' @ [CHR 0x0A]))
        else if rawin then
          (if decompFormat = None \<or> decompWidth = 0 \<or> decompHeight = 0
           then Inl (runtime_error (''ERROR: -f, -w, -h must be given for raw inputs'' @ [CHR 0x0A]))
           else Inr ([], cb1))
        else if \<not> decompress then
          Inr ((if decompFormat \<noteq> None then [warning ''-f''] else [])
                 @ (if decompWidth \<noteq> 0 then [warning ''-w''] else [])
                 @ (if decompHeight \<noteq> 0 then [warning ''-h''] else []),
               cb1\<lparr>m_decompFormat := None, m_decompWidth := 0, m_decompHeight := 0\<rparr>)
        else Inr ([], cb1)))))))))))))"

text \<open>\<open>initInput\<close>. \<open>u1\<close>, \<open>u2\<close> are the indeterminate values of \<open>VideoReader::open\<close>. The
  strings passed on are never null here: \<open>initArguments\<close> has checked them.\<close>

definition initInput ::
  "('d, 'c) env \<Rightarrow> DWORD \<Rightarrow> DWORD \<Rightarrow> ('d, 'c) CodecBench \<Rightarrow> error + ('d, 'c) CodecBench" where
  "initInput e u1 u2 cb =
     attempt (if m_rawin cb
          then openRaw (filesystem e) (the (m_infile cb)) (the (m_decompFormat cb))
                 (m_decompWidth cb) (m_decompHeight cb) (m_videoReader cb)
          else VideoReader_open (filesystem e) u1 u2 (the (m_infile cb)) (m_videoReader cb)) (\<lambda>rd.
     let cb1 = cb\<lparr>m_videoReader := rd\<rparr> in
     if m_decompress cb then
       attempt (case m_decompFormat cb of
              None \<Rightarrow> Inr None
            | Some f \<Rightarrow>
                attempt (GetDecompFormat f (buf_get32 4 (m_biFormat rd)) (buf_get32 8 (m_biFormat rd)))
                  (\<lambda>b. Inr (Some (bih_bytes b)))) (\<lambda>biFormatDecomp.
       attempt (Decompressor_init (vfw_api e) (m_biFormat rd) biFormatDecomp
              (m_decompWidth cb) (m_decompHeight cb) (m_decompressor cb)) (\<lambda>d.
       Inr (cb1\<lparr>m_decompressor := d,
                 m_formatDecompressed := bih_assign (m_formatDecompressed cb) (Some (d_biFormatOut d))\<rparr>)))
     else
       Inr (cb1\<lparr>m_formatDecompressed := bih_assign (m_formatDecompressed cb) (Some (m_biFormat rd))\<rparr>))"

definition initOutput :: "('d, 'c) env \<Rightarrow> ('d, 'c) CodecBench \<Rightarrow> error + ('d, 'c) CodecBench" where
  "initOutput e cb =
     attempt (if m_compress cb then
            attempt (Compressor_init (vfw_api e) (m_formatDecompressed cb) (m_compressor cb)) (\<lambda>(res, c).
            Inr (if res
                 then cb\<lparr>m_compress := res, m_compressor := c,
                         m_formatCompressed := bih_assign (m_formatCompressed cb) (Some (c_biFormatOut c))\<rparr>
                 else cb\<lparr>m_compress := res, m_compressor := c\<rparr>))
          else Inr cb) (\<lambda>cb1.
     let cb2 = (if \<not> m_compress cb1 then cb1\<lparr>m_formatCompressed := m_formatDecompressed cb1\<rparr> else cb1) in
     case m_outfile cb2 of
       None \<Rightarrow> Inr cb2
     | Some outfile \<Rightarrow>
         attempt (VideoWriter_open (can_create e) outfile
                (if m_rawout cb2 then None else Some (m_formatCompressed cb2))) (\<lambda>w.
         Inr (cb2\<lparr>m_videoWriter := w\<rparr>)))"


subsection \<open>The run loop\<close>

text \<open>The local variables of \<open>run\<close>, and \<open>tests\<close>, the number of loop tests made so far
  (the index into \<open>counter\<close>, \<open>indeterminate\<close> and \<open>stop_at\<close>).\<close>

record run_locals =
  decompTimer :: Timer
  compTimer :: Timer
  numFrames :: cint
  currentFrameNum :: cint
  sumInputSize :: "64 word"
  sumOutputSize :: "64 word"
  sumRawSize :: "64 word"
  loop :: cint
  tests :: nat

definition run_locals_init :: run_locals where
  "run_locals_init =
     \<lparr> decompTimer = Timer_new, compTimer = Timer_new, numFrames = 0, currentFrameNum = 0,
       sumInputSize = 0, sumOutputSize = 0, sumRawSize = 0, loop = 0, tests = 0 \<rparr>"

text \<open>The decode stage of one iteration: the current frame (pointer and size) goes in,
  the frame after the stage comes out.\<close>

definition decode_stage ::
  "('d, 'c) env \<Rightarrow> ('d, 'c) CodecBench \<times> run_locals \<Rightarrow> byte list \<times> DWORD
     \<Rightarrow> (('d, 'c) CodecBench \<times> run_locals) \<times> byte list \<times> DWORD" where
  "decode_stage e st frame =
     (let (cb, l) = st; (currData, currDataSize) = frame in
      if m_decompress cb then
        (let t1 = Timer_begin (counter e (4 * tests l)) (decompTimer l);
             d = decompressFrame (vfw_api e) currData currDataSize (m_decompressor cb);
             t2 = Timer_end (counter e (4 * tests l + 1)) t1
         in ((cb\<lparr>m_decompressor := d\<rparr>, l\<lparr>decompTimer := t2\<rparr>),
             d_frameBuf d, buf_biSizeImage (d_biFormatOut d)))
      else (st, frame))"

definition encode_stage ::
  "('d, 'c) env \<Rightarrow> ('d, 'c) CodecBench \<times> run_locals \<Rightarrow> byte list \<times> DWORD
     \<Rightarrow> (('d, 'c) CodecBench \<times> run_locals) \<times> byte list \<times> DWORD" where
  "encode_stage e st frame =
     (let (cb, l) = st; (currData, currDataSize) = frame in
      if m_compress cb then
        (let t1 = Timer_begin (counter e (4 * tests l + 2)) (compTimer l);
             c = compressFrame (vfw_api e) currData (m_compressor cb);
             t2 = Timer_end (counter e (4 * tests l + 3)) t1
         in ((cb\<lparr>m_compressor := c\<rparr>, l\<lparr>compTimer := t2\<rparr>), c_frameData c, c_frameSize c))
      else (st, frame))"

text \<open>The body of the loop after a frame was read and counted.\<close>

definition process_frame ::
  "('d, 'c) env \<Rightarrow> ('d, 'c) CodecBench \<times> run_locals \<Rightarrow> ('d, 'c) CodecBench \<times> run_locals" where
  "process_frame e st =
     (let (cb, l) = st;
          frame0 = (m_frameBuf (m_videoReader cb), m_frameSize (m_videoReader cb));
          l1 = l\<lparr>sumInputSize := sumInputSize l + ucast (snd frame0)\<rparr>;
          ((cb2, l2), frame1) = decode_stage e (cb, l1) frame0;
          l3 = l2\<lparr>sumRawSize := sumRawSize l2 + ucast (snd frame1)\<rparr>;
          ((cb4, l4), frame2) = encode_stage e (cb2, l3) frame1;
          l5 = l4\<lparr>sumOutputSize := sumOutputSize l4 + ucast (snd frame2)\<rparr>
      in (if m_outfile cb4 \<noteq> None
          then cb4\<lparr>m_videoWriter := writeFrame (fst frame2) (snd frame2) (m_videoWriter cb4)\<rparr>
          else cb4,
          l5))"

text \<open>One iteration of the \<open>while\<close> loop, entered after its test succeeded. The frame is
  read with \<open>readFrame\<close>, the call whose \<open>resize\<close> returns: an iteration in which the frame
  buffer cannot be allocated leaves the loop with the exception of \<open>readFrame_alloc\<close>, which
  \<open>main\<close> reports.\<close>

definition loop_body ::
  "('d, 'c) env \<Rightarrow> ('d, 'c) CodecBench \<times> run_locals \<Rightarrow> ('d, 'c) CodecBench \<times> run_locals" where
  "loop_body e st =
     (let (cb, l) = st;
          (ok, rd) = readFrame (indeterminate e (tests l)) (m_videoReader cb);
          cb1 = cb\<lparr>m_videoReader := rd\<rparr>;
          l1 = l\<lparr>tests := tests l + 1\<rparr>
      in
      if \<not> ok \<or> (m_framesToProcess cb \<noteq> 0 \<and> \<not> sless (currentFrameNum l) (m_framesToProcess cb))
      then
        (let l2 = l1\<lparr>currentFrameNum := 0, loop := loop l + 1\<rparr> in
         (if sless (loop l2) (m_loopCount cb) then cb1\<lparr>m_videoReader := rewind rd\<rparr> else cb1, l2))
      else
        process_frame e
          (cb1, l1\<lparr>currentFrameNum := currentFrameNum l + 1, numFrames := numFrames l + 1\<rparr>))"

text \<open>The loop may run forever (a raw input with a frame size of 0 and no frame limit
  never ends): \<open>None\<close> is the run that does not return.\<close>

partial_function (option) run_loop ::
  "('d, 'c) env \<Rightarrow> ('d, 'c) CodecBench \<times> run_locals \<Rightarrow> (('d, 'c) CodecBench \<times> run_locals) option" where
  "run_loop e st =
     (if \<not> s_stop e (tests (snd st)) \<and> sless (loop (snd st)) (m_loopCount (fst st))
      then run_loop e (loop_body e st)
      else Some st)"

definition run :: "('d, 'c) env \<Rightarrow> ('d, 'c) CodecBench \<Rightarrow> (('d, 'c) CodecBench \<times> run_locals) option" where
  "run e cb = run_loop e (cb, run_locals_init)"


section \<open>Reading the parsed command line\<close>

text \<open>The value an option has after parsing, with the default \<open>getArg\<close> is given.\<close>

definition arg_opt :: "ArgvParser \<Rightarrow> string \<Rightarrow> string option \<Rightarrow> string option" where
  "arg_opt p arg defVal = (case argmap p arg of Some (Some v) \<Rightarrow> Some v | _ \<Rightarrow> defVal)"

definition arg_value :: "ArgvParser \<Rightarrow> string \<Rightarrow> string \<Rightarrow> string" where
  "arg_value p arg defVal = (case argmap p arg of Some (Some v) \<Rightarrow> v | _ \<Rightarrow> defVal)"

text \<open>The other arguments raise no error: \<open>-rawout\<close> and \<open>-nc\<close> come without a parameter,
  every option that takes a value has one, and \<open>-i\<close> is given.\<close>

definition other_arguments_ok :: "ArgvParser \<Rightarrow> bool" where
  "other_arguments_ok p =
     ((argmap p ''-rawout'' = None \<or> argmap p ''-rawout'' = Some None)
      \<and> (argmap p ''-rawout'' = None \<longrightarrow> argmap p ''-nc'' = None \<or> argmap p ''-nc'' = Some None)
      \<and> argmap p ''-f'' \<noteq> Some None \<and> argmap p ''-w'' \<noteq> Some None
      \<and> argmap p ''-h'' \<noteq> Some None \<and> argmap p ''-frames'' \<noteq> Some None
      \<and> argmap p ''-loop'' \<noteq> Some None \<and> argmap p ''-o'' \<noteq> Some None
      \<and> (\<exists>f. argmap p ''-i'' = Some (Some f)))"

text \<open>The size of the current frame after the decode stage.\<close>

definition post_decode_size :: "('d, 'c) CodecBench \<Rightarrow> DWORD" where
  "post_decode_size cb =
     (if m_decompress cb then buf_biSizeImage (d_biFormatOut (m_decompressor cb))
      else m_frameSize (m_videoReader cb))"

text \<open>An environment without codecs: no decompressor is found, and the compressor dialog
  answers "no compression" (it succeeds and leaves \<open>hic\<close> null). Every output file can be
  created, the counter counts its readings, and \<open>atoi\<close> answers \<open>INT_MIN\<close> or \<open>INT_MAX\<close> for a
  number outside \<open>int\<close>.\<close>

definition no_codecs :: "(unit, unit) vfw" where
  "no_codecs =
     \<lparr> ICLocate = (\<lambda>fmt. None),
       ICDecompressQuery = (\<lambda>hic fin fout. False),
       ICDecompressGetFormatSize = (\<lambda>hic fin. 0),
       ICDecompressGetFormat = (\<lambda>hic fin out. (False, out)),
       ICDecompressBegin = (\<lambda>hic fin fout. (False, hic)),
       ICDecompress = (\<lambda>hic fin data fout buf. (hic, buf)),
       ICCompressorChoose = (\<lambda>fin cv. (True, cv)),
       compvars_hic = (\<lambda>cv. False),
       compvars_lpbiOut = (\<lambda>cv. None),
       compvars_lpbiIn_biSizeImage = (\<lambda>cv. 0),
       ICSeqCompressFrameStart = (\<lambda>cv fin. (False, cv)),
       ICSeqCompressFrame = (\<lambda>cv data n. (cv, [], 0)) \<rparr>"

definition plain_env :: "files \<Rightarrow> nat option \<Rightarrow> (unit, unit) env" where
  "plain_env files stop =
     \<lparr> filesystem = files, can_create = (\<lambda>path. True), vfw_api = no_codecs,
       counter = (\<lambda>i. of_nat i), indeterminate = (\<lambda>i. 0), stop_at = stop,
       atoi_overflow = (\<lambda>v. if v < 0 then - (2 ^ 31) else 2 ^ 31 - 1) \<rparr>"

text \<open>A container file with a complete header and no frame.\<close>

definition header_only_file :: "byte list" where
  "header_only_file = le32 0xABCDEF01 @ le32 40 @ bih_bytes (bih_init 4 2)"

section \<open>The frames of an input and the totals of a run\<close>















text \<open>
  The size of the current frame after both stages of the pipeline, \<open>currDataSize\<close> where
  \<open>run\<close> adds it to \<open>sumOutputSize\<close>, when the frame read is \<open>data\<close> with size \<open>n\<close> and the
  decompressor and the compressor are in the states \<open>dc\<close> and \<open>c\<close>.
  \<open>frame_sizes e cb osz frames\<close>: for each frame \<open>d\<close> of \<open>frames\<close> that size is \<open>osz d\<close>,
  whatever the states of the two codecs (the decoded format apart, which a run leaves as
  it is) and whatever the buffer holds behind the frame. \<open>output_bytes\<close> is the sum of
  these sizes.
\<close>

definition output_size ::
  "('d, 'c) vfw \<Rightarrow> bool \<Rightarrow> bool \<Rightarrow> 'd Decompressor \<Rightarrow> 'c Compressor \<Rightarrow> byte list \<Rightarrow> DWORD
     \<Rightarrow> DWORD" where
  "output_size api decompress compress dc c data n =
     (let (data1, n1) =
            (if decompress
             then (let d = decompressFrame api data n dc
                   in (d_frameBuf d, buf_biSizeImage (d_biFormatOut d)))
             else (data, n))
      in if compress then c_frameSize (compressFrame api data1 c) else n1)"

definition frame_sizes ::
  "('d, 'c) env \<Rightarrow> ('d, 'c) CodecBench \<Rightarrow> (byte list \<Rightarrow> DWORD) \<Rightarrow> byte list list \<Rightarrow> bool" where
  "frame_sizes e cb osz frames =
     (\<forall>d\<in>set frames. \<forall>dc c rest.
        d_biFormatOut dc = d_biFormatOut (m_decompressor cb) \<longrightarrow>
        output_size (vfw_api e) (m_decompress cb) (m_compress cb) dc c (d @ rest)
          (of_nat (length d)) = osz d)"




section \<open>Byte encoding and integer facts\<close>

lemma sint_word_of_int_32: "- (2^31) \<le> i \<Longrightarrow> i < 2^31 \<Longrightarrow> sint (word_of_int i :: 32 word) = i"
  by (simp add: sint_sbintrunc' signed_take_bit_int_eq_self)

lemma uint_word_of_int_32: "0 \<le> i \<Longrightarrow> i < 2^32 \<Longrightarrow> uint (word_of_int i :: 32 word) = i"
  by (simp add: uint_word_of_int)

lemma c_abs_of_int:
  assumes "- (2^31) < h" "h < 2^31"
  shows "c_abs (word_of_int h) = word_of_int \<bar>h\<bar>"
  using assms by (simp add: c_abs_def sless_def sint_word_of_int_32)

lemma c_sdiv_pos:
  assumes "0 \<le> a" "a < 2^31" "0 < b" "b < 2^31"
  shows "c_sdiv (word_of_int a) (word_of_int b) = word_of_int (a div b)"
  using assms by (simp add: c_sdiv_def sint_word_of_int_32 signed_divide_int_def sgn_if)

lemma align_to4_of_int:
  assumes "0 \<le> a" "a + 3 < 2^32"
  shows "align_to4 (word_of_int a) = word_of_int ((a + 3) div 4 * 4)"
proof -
  have "uint (word_of_int (a + 3) :: 32 word) = a + 3"
    using assms by (intro uint_word_of_int_32) auto
  then have "(word_of_int (a + 3) :: 32 word) div 4 = word_of_int ((a + 3) div 4)"
    by (simp only: word_div_def uint_numeral) simp
  then show ?thesis
    by (simp add: align_to4_def)
qed

lemma ceiling_div_int:
  assumes "0 < b"
  shows "\<lceil>real_of_int a / real_of_int b\<rceil> = (a + (b - 1)) div b"
proof -
  define q r where "q = a div b" and "r = a mod b"
  have a: "a = b * q + r" and r: "0 \<le> r" "r < b"
    using assms by (simp_all add: q_def r_def)
  have "(a + (b - 1)) div b = (if r = 0 then q else q + 1)"
  proof (cases "r = 0")
    case True
    have "(b - 1 + b * q) div b = q + (b - 1) div b"
      using assms by (subst div_mult_self2) simp_all
    then show ?thesis using True a assms by (simp add: add.commute div_pos_pos_trivial)
  next
    case False
    have "(r - 1 + b * (q + 1)) div b = (q + 1) + (r - 1) div b"
      using assms by (subst div_mult_self2) simp_all
    moreover have "(r - 1) div b = 0" using r False by (simp add: div_pos_pos_trivial)
    moreover have "a + (b - 1) = r - 1 + b * (q + 1)" using a by (simp add: algebra_simps)
    ultimately have "(a + (b - 1)) div b = q + 1" by (simp only:)
    then show ?thesis using False by simp
  qed
  moreover have "- (- a div b) = (if r = 0 then q else q + 1)"
    using assms by (simp add: zdiv_zminus1_eq_if q_def r_def)
  ultimately show ?thesis by (simp add: ceiling_divide_eq_div)
qed

lemma ceiling4: "\<lceil>real_of_int a / 4\<rceil> = (a + 3) div 4"
  using ceiling_div_int [of 4 a] by simp

lemma ceiling48: "\<lceil>real_of_int a / 48\<rceil> = (a + 47) div 48"
  using ceiling_div_int [of 48 a] by simp

lemma ceiling64: "\<lceil>real_of_int a / 64\<rceil> = (a + 63) div 64"
  using ceiling_div_int [of 64 a] by simp

section \<open>Reading frames\<close>

lemma length_le32 [simp]: "length (le32 w) = 4"
  by (simp add: le32_def)

lemma le32_decode_le32: "le32_decode (le32 w) = w"
proof (rule bit_word_eqI)
  fix n assume n: "n < LENGTH(32)"
  have a: "8 \<le> n \<Longrightarrow> 8 + (n - 8) = n" "16 \<le> n \<Longrightarrow> 16 + (n - 16) = n"
    "24 \<le> n \<Longrightarrow> 24 + (n - 24) = n" by simp_all
  consider "n < 8" | "8 \<le> n" "n < 16" | "16 \<le> n" "n < 24" | "24 \<le> n" "n < 32"
    using n by fastforce
  then show "bit (le32_decode (le32 w)) n = bit w n"
    by cases (auto simp: le32_def le32_decode_def bit_simps a)
qed

lemma istream_read_bad: "\<not> good s \<Longrightarrow> istream_read n s = ([], s\<lparr>failbit := True\<rparr>)"
  by (simp add: istream_read_def)

lemma istream_read_full:
  "good s \<Longrightarrow> n \<le> length (content s) - pos s \<Longrightarrow>
   istream_read n s = (take n (drop (pos s) (content s)), s\<lparr>pos := pos s + n\<rparr>)"
  by (simp add: istream_read_def good_def Let_def min_def)

lemma istream_read_short:
  "good s \<Longrightarrow> length (content s) - pos s < n \<Longrightarrow>
   istream_read n s = (drop (pos s) (content s),
      s\<lparr>pos := pos s + (length (content s) - pos s), eofbit := True, failbit := True\<rparr>)"
  by (simp add: istream_read_def good_def Let_def min_def)

lemma length_resize [simp]: "length (resize n buf) = n"
  by (simp add: resize_def)

lemma overlay_full: "length got = length buf \<Longrightarrow> overlay got buf = got"
  by (simp add: overlay_def)

lemma take_overlay: "length got = n \<Longrightarrow> take n (overlay got buf) = got"
  by (simp add: overlay_def)

lemma readFrame_complete: "frame_result (readFrame u r) = complete_frame r"
proof (cases "good (m_inFile r)")
  case False
  then show ?thesis
    by (auto simp: readFrame_def complete_frame_def frame_result_def readVar_def
        istream_read_bad Let_def good_def split: prod.splits)
next
  case g: True
  define s where "s = m_inFile r"
  define avail where "avail = drop (pos s) (content s)"
  show ?thesis
  proof (cases "m_raw r")
    case True
    then show ?thesis using g 
      apply (cases "unat (buf_biSizeImage (m_biFormat r)) \<le> length (content (m_inFile r)) - pos (m_inFile r)")
      apply (simp_all add: readFrame_def complete_frame_def frame_result_def frame_of_def istream_read_full istream_read_short Let_def good_def  overlay_def resize_def)
      done
  next
    case c: False
    show ?thesis
    proof (cases "length (content (m_inFile r)) - pos (m_inFile r) < 4")
      case True
      then show ?thesis using g c
        by (simp add: readFrame_def complete_frame_def frame_result_def readVar_def
            istream_read_short istream_read_bad Let_def good_def)
    next
      case False
      then have p: "4 \<le> length (content (m_inFile r)) - pos (m_inFile r)" by simp
      define n where "n = le32_decode (take 4 (drop (pos (m_inFile r)) (content (m_inFile r))))"
      have rv: "readVar u (m_inFile r) = (n, (m_inFile r)\<lparr>pos := pos (m_inFile r) + 4\<rparr>)"
        using g p by (simp add: readVar_def istream_read_full overlay_def n_def)
      have g': "good ((m_inFile r)\<lparr>pos := pos (m_inFile r) + 4\<rparr>)"
        using g by (simp add: good_def)
      show ?thesis
      proof (cases "unat n \<le> length (content (m_inFile r)) - pos (m_inFile r) - 4")
        case True
        then show ?thesis using g c p g' rv
          by (simp add: readFrame_def complete_frame_def frame_result_def frame_of_def
              istream_read_full Let_def good_def overlay_def resize_def n_def add.commute)
      next
        case False
        then show ?thesis using g c p g' rv
          by (simp add: readFrame_def complete_frame_def frame_result_def frame_of_def
              istream_read_short Let_def good_def overlay_def resize_def n_def)
      qed
    qed
  qed
qed

lemma istream_read_content: "content (snd (istream_read n s)) = content s"
  by (simp add: istream_read_def Let_def)

lemma readVar_content: "content (snd (readVar u s)) = content s"
  by (simp add: readVar_def istream_read_def Let_def split: prod.splits)

lemma readFrame_unchanged:
  "content (m_inFile (snd (readFrame u r))) = content (m_inFile r)"
  "m_raw (snd (readFrame u r)) = m_raw r"
  "m_biFormat (snd (readFrame u r)) = m_biFormat r"
  "m_headerSize (snd (readFrame u r)) = m_headerSize r"
  by (simp_all add: readFrame_def readVar_def istream_read_def Let_def split: prod.splits)

lemma readFrame_stream_ok:
  assumes "complete_frame r = Some (n, d)"
  shows "m_inFile (snd (readFrame u r)) =
           (m_inFile r)\<lparr>pos := pos (m_inFile r) + (if m_raw r then 0 else 4) + unat n\<rparr>"
proof -
  have g: "good (m_inFile r)"
    using assms by (auto simp: complete_frame_def Let_def split: if_splits)
  show ?thesis
  proof (cases "m_raw r")
    case True
    then show ?thesis using g assms
      by (auto simp: readFrame_def complete_frame_def istream_read_full Let_def good_def
          split: if_splits)
  next
    case False
    then have p: "4 \<le> length (content (m_inFile r)) - pos (m_inFile r)"
      using assms g by (auto simp: complete_frame_def Let_def split: if_splits)
    have n: "n = le32_decode (take 4 (drop (pos (m_inFile r)) (content (m_inFile r))))"
      and l: "unat n \<le> length (content (m_inFile r)) - pos (m_inFile r) - 4"
      using assms g False by (auto simp: complete_frame_def Let_def split: if_splits)
    have rv: "readVar u (m_inFile r) = (n, (m_inFile r)\<lparr>pos := pos (m_inFile r) + 4\<rparr>)"
      using g p by (simp add: readVar_def istream_read_full overlay_def n)
    have g': "good ((m_inFile r)\<lparr>pos := pos (m_inFile r) + 4\<rparr>)"
      using g by (simp add: good_def)
    show ?thesis using g False p g' rv l
      by (simp add: readFrame_def istream_read_full Let_def good_def add.commute)
  qed
qed

lemma le32_decode_append: "le32_decode (take 4 (le32 n @ xs)) = n"
  by (simp add: le32_decode_le32)

lemma complete_frame_container:
  assumes "\<not> m_raw r" "good (m_inFile r)"
    and "content (m_inFile r) = pre @ le32 n @ d @ rest"
    and "pos (m_inFile r) = length pre" "length d = unat n"
  shows "complete_frame r = Some (n, d)"
  using assms by (simp add: complete_frame_def Let_def le32_decode_le32)

lemma complete_frame_raw:
  assumes "m_raw r" "good (m_inFile r)"
    and "content (m_inFile r) = pre @ d @ rest"
    and "pos (m_inFile r) = length pre" "length d = unat (buf_biSizeImage (m_biFormat r))"
  shows "complete_frame r = Some (buf_biSizeImage (m_biFormat r), d)"
  using assms by (simp add: complete_frame_def Let_def)

lemma fst_readFrames_Cons:
  "fst (readFrames (u # us) r) =
     frame_result (readFrame u r) # fst (readFrames us (snd (readFrame u r)))"
  by (simp add: Let_def split: prod.splits)

lemma snd_readFrames_Cons:
  "snd (readFrames (u # us) r) = snd (readFrames us (snd (readFrame u r)))"
  by (simp add: Let_def split: prod.splits)

lemma readFrames_container:
  assumes "\<not> m_raw r" "good (m_inFile r)"
    and "content (m_inFile r) = pre @ concat (map (\<lambda>(d, n). le32 n @ take (unat n) d) frames) @ rest"
    and "pos (m_inFile r) = length pre"
    and "\<forall>(d, n) \<in> set frames. unat n \<le> length d"
    and "length us = length frames"
  shows "fst (readFrames us r) = map (\<lambda>(d, n). Some (n, take (unat n) d)) frames"
  using assms
proof (induction frames arbitrary: us r pre)
  case Nil
  then show ?case by simp
next
  case (Cons f frames)
  obtain d n where f: "f = (d, n)" by (cases f)
  obtain u us' where us: "us = u # us'" using Cons.prems(6) by (cases us) auto
  define dd where "dd = take (unat n) d"
  have ldd: "length dd = unat n" using Cons.prems(5) f by (simp add: dd_def)
  have c: "content (m_inFile r) = pre @ le32 n @ dd @
      (concat (map (\<lambda>(d, n). le32 n @ take (unat n) d) frames) @ rest)"
    using Cons.prems(3) f by (simp add: dd_def)
  have cf: "complete_frame r = Some (n, dd)"
    by (rule complete_frame_container [OF Cons.prems(1,2) c Cons.prems(4) ldd])
  define r' where "r' = snd (readFrame u r)"
  have s': "m_inFile r' = (m_inFile r)\<lparr>pos := length pre + 4 + unat n\<rparr>"
    using readFrame_stream_ok [OF cf, of u] Cons.prems(1,4) by (simp add: r'_def)
  have "fst (readFrames us' r') = map (\<lambda>(d, n). Some (n, take (unat n) d)) frames"
  proof (rule Cons.IH [where pre = "pre @ le32 n @ dd"])
    show "\<not> m_raw r'" using Cons.prems(1) by (simp add: r'_def readFrame_unchanged)
    show "good (m_inFile r')" using Cons.prems(2) s' by (simp add: good_def)
    show "content (m_inFile r') = (pre @ le32 n @ dd) @
        concat (map (\<lambda>(d, n). le32 n @ take (unat n) d) frames) @ rest"
      using c s' by simp
    show "pos (m_inFile r') = length (pre @ le32 n @ dd)" using s' ldd by simp
    show "\<forall>(d, n)\<in>set frames. unat n \<le> length d" using Cons.prems(5) by simp
    show "length us' = length frames" using Cons.prems(6) us by simp
  qed
  moreover have "frame_result (readFrame u r) = Some (n, dd)"
    using cf by (simp add: readFrame_complete)
  ultimately show ?case
    by (simp only: us fst_readFrames_Cons f r'_def dd_def) simp
qed

lemma writeFrame_container:
  "\<not> m_raw_w w \<Longrightarrow>
   m_outFile (writeFrame d n w) = m_outFile w @ le32 n @ take (unat n) d
   \<and> \<not> m_raw_w (writeFrame d n w)"
  by (simp add: writeFrame_def writeVar_def)

lemma fold_writeFrame_container:
  "\<not> m_raw_w w \<Longrightarrow>
   m_outFile (fold (\<lambda>(d, n). writeFrame d n) frames w) =
     m_outFile w @ concat (map (\<lambda>(d, n). le32 n @ take (unat n) d) frames)
   \<and> \<not> m_raw_w (fold (\<lambda>(d, n). writeFrame d n) frames w)"
proof (induction frames arbitrary: w)
  case Nil
  then show ?case by simp
next
  case (Cons f frames)
  obtain d n where f: "f = (d, n)" by (cases f)
  have "\<not> m_raw_w (writeFrame d n w)" using Cons.prems by (simp add: writeFrame_container)
  from Cons.IH [OF this] show ?case
    using Cons.prems by (simp add: f writeFrame_container)
qed

section \<open>The container round trip\<close>

text \<open>
  Claim C1. A descriptor \<open>fmt\<close> (the memory at \<open>biFormat\<close>, holding at least the \<open>biSize\<close>
  bytes it declares) and frames given as a pointer's memory \<open>d\<close> with a size \<open>n\<close> (at least
  \<open>n\<close> bytes there) are written by \<open>VideoWriter::open\<close> in container mode and one
  \<open>writeFrame\<close> per frame. \<open>VideoReader::open\<close> on the file written succeeds, its
  descriptor buffer holds the descriptor's \<open>biSize\<close> bytes, and as many calls of
  \<open>readFrame\<close> as there were frames each return true with the frame's size and bytes, in
  order. The indeterminate values \<open>u1\<close>, \<open>u2\<close>, \<open>us\<close> of \<open>readVar\<close> and the reader's
  earlier state \<open>r0\<close> do not matter.
\<close>

theorem container_round_trip:
  assumes fmt: "unat (buf_biSize fmt) \<le> length fmt"
    and frames: "\<forall>(d, n) \<in> set frames. unat n \<le> length d"
    and wo: "VideoWriter_open creatable outfile (Some fmt) = Inr w0"
    and written: "fs infile = Some (m_outFile (fold (\<lambda>(d, n). writeFrame d n) frames w0))"
    and us: "length us = length frames"
  shows "\<exists>r. VideoReader_open fs u1 u2 infile r0 = Inr r
        \<and> m_biFormat r = take (unat (buf_biSize fmt)) fmt
        \<and> fst (readFrames us r) = map (\<lambda>(d, n). Some (n, take (unat n) d)) frames"
proof -
  define fb where "fb = take (unat (buf_biSize fmt)) fmt"
  define hdr where "hdr = le32 0xABCDEF01 @ le32 (buf_biSize fmt) @ fb"
  define w where "w = \<lparr>m_outFile = hdr, m_raw_w = False\<rparr>"
  define body where "body = concat (map (\<lambda>(d, n). le32 n @ take (unat n) d) frames)"
  have lfb: "length fb = unat (buf_biSize fmt)" using fmt by (simp add: fb_def)
  have w: "w0 = w"
    using wo by (simp add: VideoWriter_open_def w_def hdr_def fb_def writeVar_def split: if_splits)
  have "m_outFile (fold (\<lambda>(d, n). writeFrame d n) frames w) = hdr @ body"
    using fold_writeFrame_container [of w frames] by (simp add: w_def body_def)
  then have fsf: "fs infile = Some (hdr @ body)" using written w by simp
  define s3 where "s3 = \<lparr>content = hdr @ body, pos = 8 + unat (buf_biSize fmt), eofbit = False, failbit = False\<rparr>"
  define r where "r = r0\<lparr>m_inFile := s3, m_raw := False, m_biFormat := fb, m_headerSize := 8 + buf_biSize fmt\<rparr>"
  have r1: "readVar u1 (ifstream_open (hdr @ body)) = (0xABCDEF01, (ifstream_open (hdr @ body))\<lparr>pos := 4\<rparr>)"
    by (simp add: readVar_def istream_read_full good_def ifstream_open_def hdr_def overlay_def le32_decode_le32)
  have r2: "readVar u2 ((ifstream_open (hdr @ body))\<lparr>pos := 4\<rparr>) = (buf_biSize fmt, (ifstream_open (hdr @ body))\<lparr>pos := 8\<rparr>)"
    by (simp add: readVar_def istream_read_full good_def ifstream_open_def hdr_def overlay_def le32_decode_le32)
  have r3: "istream_read (unat (buf_biSize fmt)) ((ifstream_open (hdr @ body))\<lparr>pos := 8\<rparr>) = (fb, s3)"
    using lfb by (simp add: istream_read_full good_def ifstream_open_def hdr_def s3_def)
  have ro: "VideoReader_open fs u1 u2 infile r0 = Inr r"
    using lfb by (simp add: VideoReader_open_def fsf r1 r2 r3 r_def overlay_full)
  have "fst (readFrames us r) = map (\<lambda>(d, n). Some (n, take (unat n) d)) frames"
  proof (rule readFrames_container [where pre = hdr and rest = "[]"])
    show "\<not> m_raw r" by (simp add: r_def)
    show "good (m_inFile r)" by (simp add: r_def s3_def good_def)
    show "content (m_inFile r) = hdr @ concat (map (\<lambda>(d, n). le32 n @ take (unat n) d) frames) @ []"
      by (simp add: r_def s3_def body_def)
    show "pos (m_inFile r) = length hdr" using lfb by (simp add: r_def s3_def hdr_def)
    show "\<forall>(d, n) \<in> set frames. unat n \<le> length d" by (rule frames)
    show "length us = length frames" by (rule us)
  qed
  moreover have "m_biFormat r = take (unat (buf_biSize fmt)) fmt" by (simp add: r_def fb_def)
  ultimately show ?thesis using ro by blast
qed

theorem container_round_trip_witness:
  "\<exists>r. VideoReader_open
         (\<lambda>f. Some (m_outFile (fold (\<lambda>(d, n). writeFrame d n) [([1, 2, 3, 9], 3), ([], 0)]
             \<lparr>m_outFile = le32 0xABCDEF01 @ le32 40 @ bih_bytes (bih_init 4 2), m_raw_w = False\<rparr>)))
         0 0 ''in'' VideoReader_new = Inr r
     \<and> m_biFormat r = bih_bytes (bih_init 4 2)
     \<and> fst (readFrames [0, 0] r) = [Some (3, [1, 2, 3]), Some (0, [])]"
proof -
  have s: "buf_biSize (bih_bytes (bih_init 4 2)) = 40" "length (bih_bytes (bih_init 4 2)) = 40"
    by (simp_all add: bih_bytes_def bih_init_def buf_biSize_def le32_def le16_def
      le32_decode_def sizeof_BITMAPINFOHEADER_def)
  have "VideoWriter_open (\<lambda>f. True) ''out'' (Some (bih_bytes (bih_init 4 2))) =
      Inr \<lparr>m_outFile = le32 0xABCDEF01 @ le32 40 @ bih_bytes (bih_init 4 2), m_raw_w = False\<rparr>"
    by (simp add: VideoWriter_open_def writeVar_def s)
  from container_round_trip [where fmt = "bih_bytes (bih_init 4 2)" and us = "[0, 0]"
      and frames = "[([1, 2, 3, 9], 3), ([], 0)]" and infile = "''in''" and ?u1.0 = 0 and ?u2.0 = 0
      and ?r0.0 = VideoReader_new, OF _ _ this]
  show ?thesis by (simp add: s)
qed

section \<open>The frame byte size\<close>

text \<open>
  Claim C2, as amended. For a positive width \<open>w\<close> and a nonzero height \<open>h\<close>,
  \<open>GetDecompFormat\<close> stores as \<open>biSizeImage\<close> the value \<open>align4(w*3) * |h|\<close> for RGB24,
  \<open>ceil(w/48) * 128 * |h|\<close> for v210 and \<open>ceil(w/64) * 256 * |h|\<close> for r210, whenever that
  value fits the 32-bit field (is below \<open>2 ^ 32\<close>); and for every format name the size for
  \<open>- h\<close> is the size for \<open>h\<close>. Below \<open>2 ^ 31\<close> no signed operation of the source
  overflows, so the result there does not depend on how overflow is modelled.
\<close>

theorem GetDecompFormat_frame_byte_size:
  fixes w h :: int
  assumes "0 < w" and "h \<noteq> 0"
  shows "(4 * \<lceil>real_of_int (w * 3) / 4\<rceil> * \<bar>h\<bar> < 2 ^ 32 \<longrightarrow>
            frame_byte_size ''RGB24'' w h = Some (4 * \<lceil>real_of_int (w * 3) / 4\<rceil> * \<bar>h\<bar>))
       \<and> (\<lceil>real_of_int w / 48\<rceil> * 128 * \<bar>h\<bar> < 2 ^ 32 \<longrightarrow>
            frame_byte_size ''v210'' w h = Some (\<lceil>real_of_int w / 48\<rceil> * 128 * \<bar>h\<bar>))
       \<and> (\<lceil>real_of_int w / 64\<rceil> * 256 * \<bar>h\<bar> < 2 ^ 32 \<longrightarrow>
            frame_byte_size ''r210'' w h = Some (\<lceil>real_of_int w / 64\<rceil> * 256 * \<bar>h\<bar>))
       \<and> (\<bar>h\<bar> < 2 ^ 31 \<longrightarrow> (\<forall>f. frame_byte_size f w (- h) = frame_byte_size f w h))"
unfolding ceiling4 ceiling48 ceiling64
proof (intro conjI impI allI)
  assume b': "4 * ((w * 3 + 3) div 4) * \<bar>h\<bar> < 2 ^ 32"
  define a where "a = (w * 3 + 3) div 4"
  have a1: "1 \<le> a" using assms by (simp add: a_def)
  have h1: "1 \<le> \<bar>h\<bar>" using assms by simp
  have b: "4 * a * \<bar>h\<bar> < 2 ^ 32" using b' by (simp only: a_def)
  have "4 * a * 1 \<le> 4 * a * \<bar>h\<bar>" using a1 h1 by (intro mult_left_mono) simp_all
  then have a4: "4 * a < 2 ^ 32" using b by simp
  have "4 * 1 * \<bar>h\<bar> \<le> 4 * a * \<bar>h\<bar>" using a1 by (intro mult_right_mono mult_left_mono) simp_all
  then have hb: "\<bar>h\<bar> < 2 ^ 30" using b by simp
  have w3: "w * 3 + 3 < 2 ^ 32" using a4 by (simp add: a_def)
  have "align_to4 (word_of_int (w * 3)) = word_of_int (a * 4)"
    using assms w3 by (simp only: a_def) (rule align_to4_of_int, simp_all)
  moreover have "c_abs (word_of_int h) = word_of_int \<bar>h\<bar>"
    using hb by (intro c_abs_of_int) simp_all
  ultimately have "align_to4 (word_of_int w * 3) * c_abs (word_of_int h) = (word_of_int (4 * a * \<bar>h\<bar>) :: 32 word)"
    by (simp add: mult.commute)
  moreover have "uint (word_of_int (4 * a * \<bar>h\<bar>) :: 32 word) = 4 * a * \<bar>h\<bar>"
    using b a1 by (intro uint_word_of_int_32) simp_all
  ultimately show "frame_byte_size ''RGB24'' w h = Some (4 * ((w * 3 + 3) div 4) * \<bar>h\<bar>)"
    by (simp add: frame_byte_size_def GetDecompFormat_def bih_init_def a_def)
next
  assume b': "(w + 47) div 48 * 128 * \<bar>h\<bar> < 2 ^ 32"
  define a where "a = (w + 47) div 48"
  have a1: "1 \<le> a" using assms by (simp add: a_def)
  have h1: "1 \<le> \<bar>h\<bar>" using assms by simp
  have b: "a * 128 * \<bar>h\<bar> < 2 ^ 32" using b' by (simp only: a_def)
  have "a * 128 * 1 \<le> a * 128 * \<bar>h\<bar>" using a1 h1 by (intro mult_left_mono) simp_all
  then have a4: "a * 128 < 2 ^ 32" using b by simp
  have "1 * 128 * \<bar>h\<bar> \<le> a * 128 * \<bar>h\<bar>" using a1 by (intro mult_right_mono mult_left_mono) simp_all
  then have hb: "\<bar>h\<bar> < 2 ^ 31" using b by simp
  have w3: "w + 47 < 2 ^ 31" using a4 by (simp add: a_def)
  have "c_sdiv (word_of_int (w + 47)) (word_of_int 48) = word_of_int a"
    using assms w3 by (simp only: a_def) (rule c_sdiv_pos, simp_all)
  moreover have "c_abs (word_of_int h) = word_of_int \<bar>h\<bar>"
    using hb by (intro c_abs_of_int) simp_all
  ultimately have "c_sdiv (word_of_int w + 47) 48 * 128 * c_abs (word_of_int h) = (word_of_int (a * 128 * \<bar>h\<bar>) :: 32 word)"
    by simp
  moreover have "uint (word_of_int (a * 128 * \<bar>h\<bar>) :: 32 word) = a * 128 * \<bar>h\<bar>"
    using b a1 by (intro uint_word_of_int_32) simp_all
  ultimately show "frame_byte_size ''v210'' w h = Some ((w + 47) div 48 * 128 * \<bar>h\<bar>)"
    by (simp add: frame_byte_size_def GetDecompFormat_def bih_init_def a_def)
next
  assume b': "(w + 63) div 64 * 256 * \<bar>h\<bar> < 2 ^ 32"
  define a where "a = (w + 63) div 64"
  have a1: "1 \<le> a" using assms by (simp add: a_def)
  have h1: "1 \<le> \<bar>h\<bar>" using assms by simp
  have b: "a * 256 * \<bar>h\<bar> < 2 ^ 32" using b' by (simp only: a_def)
  have "a * 256 * 1 \<le> a * 256 * \<bar>h\<bar>" using a1 h1 by (intro mult_left_mono) simp_all
  then have a4: "a * 256 < 2 ^ 32" using b by simp
  have "1 * 256 * \<bar>h\<bar> \<le> a * 256 * \<bar>h\<bar>" using a1 by (intro mult_right_mono mult_left_mono) simp_all
  then have hb: "\<bar>h\<bar> < 2 ^ 31" using b by simp
  have w3: "w + 63 < 2 ^ 31" using a4 by (simp add: a_def)
  have "c_sdiv (word_of_int (w + 63)) (word_of_int 64) = word_of_int a"
    using assms w3 by (simp only: a_def) (rule c_sdiv_pos, simp_all)
  moreover have "c_abs (word_of_int h) = word_of_int \<bar>h\<bar>"
    using hb by (intro c_abs_of_int) simp_all
  ultimately have "c_sdiv (word_of_int w + 63) 64 * 256 * c_abs (word_of_int h) = (word_of_int (a * 256 * \<bar>h\<bar>) :: 32 word)"
    by simp
  moreover have "uint (word_of_int (a * 256 * \<bar>h\<bar>) :: 32 word) = a * 256 * \<bar>h\<bar>"
    using b a1 by (intro uint_word_of_int_32) simp_all
  ultimately show "frame_byte_size ''r210'' w h = Some ((w + 63) div 64 * 256 * \<bar>h\<bar>)"
    by (simp add: frame_byte_size_def GetDecompFormat_def bih_init_def a_def)
next
  fix f assume "\<bar>h\<bar> < 2 ^ 31"
  then have "c_abs (word_of_int (- h)) = c_abs (word_of_int h)"
    using c_abs_of_int [of h] c_abs_of_int [of "- h"] by simp
  then show "frame_byte_size f w (- h) = frame_byte_size f w h"
    by (simp add: frame_byte_size_def GetDecompFormat_def bih_init_def Let_def)
qed

theorem GetDecompFormat_frame_byte_size_witness:
  "frame_byte_size ''RGB24'' 4 2 = Some 24 \<and> frame_byte_size ''v210'' 4 2 = Some 256
    \<and> frame_byte_size ''r210'' 4 2 = Some 512 \<and> frame_byte_size ''YV12'' 4 (- 2) = frame_byte_size ''YV12'' 4 2"
  using GetDecompFormat_frame_byte_size [of 4 2] by (simp add: ceiling_eq_iff)

text \<open>The claim as stated, for every positive width and nonzero height, fails where the
  formula's value does not fit 32 bits: for RGB24 at 65536 x 65536 it is \<open>3 * 2 ^ 32\<close>,
  which no \<open>DWORD\<close> holds (the code stores 0).\<close>

theorem GetDecompFormat_size_overflow:
  "frame_byte_size ''RGB24'' 65536 65536 \<noteq> Some (4 * \<lceil>real_of_int (65536 * 3) / 4\<rceil> * \<bar>65536\<bar>)"
  by (simp add: frame_byte_size_def GetDecompFormat_def bih_init_def c_abs_def sless_def align_to4_def)

section \<open>Opening a container\<close>

lemma length_bih_bytes [simp]: "length (bih_bytes b) = 40"
  by (simp add: bih_bytes_def le16_def)

lemma buf_biSizeImage_bih_bytes [simp]: "buf_biSizeImage (bih_bytes b) = biSizeImage b"
  by (simp add: bih_bytes_def buf_biSizeImage_def le16_def le32_decode_le32)

lemma buf_biSize_bih_bytes [simp]: "buf_biSize (bih_bytes b) = biSize b"
  by (simp add: bih_bytes_def buf_biSize_def le32_decode_le32)

lemma readVar_full:
  "good s \<Longrightarrow> content s = pre @ le32 n @ rest \<Longrightarrow> pos s = length pre \<Longrightarrow>
   readVar u s = (n, s\<lparr>pos := length pre + 4\<rparr>)"
  by (simp add: readVar_def istream_read_full overlay_def le32_decode_le32)

lemma VideoReader_open_container:
  assumes "fs infile = Some (le32 0xABCDEF01 @ le32 n @ fb @ body)" "length fb = unat n"
  shows "VideoReader_open fs u1 u2 infile r0 =
     Inr (r0\<lparr>m_inFile := \<lparr>content = le32 0xABCDEF01 @ le32 n @ fb @ body, pos = 8 + unat n,
                    eofbit = False, failbit = False\<rparr>,
              m_raw := False, m_biFormat := fb, m_headerSize := 8 + n\<rparr>)"
proof -
  define c where "c = le32 0xABCDEF01 @ le32 n @ fb @ body"
  have r1: "readVar u1 (ifstream_open c) = (0xABCDEF01, (ifstream_open c)\<lparr>pos := 4\<rparr>)"
    using readVar_full [of "ifstream_open c" "[]" "0xABCDEF01" "le32 n @ fb @ body" u1]
    by (simp add: good_def ifstream_open_def c_def)
  have r2: "readVar u2 ((ifstream_open c)\<lparr>pos := 4\<rparr>) = (n, (ifstream_open c)\<lparr>pos := 8\<rparr>)"
    using readVar_full [of "(ifstream_open c)\<lparr>pos := 4\<rparr>" "le32 0xABCDEF01" n "fb @ body" u2]
    by (simp add: good_def ifstream_open_def c_def)
  have r3: "istream_read (unat n) ((ifstream_open c)\<lparr>pos := 8\<rparr>) =
      (fb, \<lparr>content = c, pos = 8 + unat n, eofbit = False, failbit = False\<rparr>)"
    using assms(2) by (simp add: istream_read_full good_def ifstream_open_def c_def)
  show ?thesis
    using assms(2) by (simp add: VideoReader_open_def assms(1) r1 r2 r3 overlay_full flip: c_def)
qed

section \<open>End of stream\<close>







section \<open>The size read at end of file\<close>

text \<open>
  Claim C9 fails on the code. In container mode, on a stream that is still \<open>good()\<close>
  and positioned at or past its end (every frame read, or none there), \<open>eof()\<close> is still
  false, \<open>readVar\<close> reads nothing and returns its uninitialised local: the frame size
  \<open>readFrame\<close> stores, and resizes its buffer to, is that indeterminate value \<open>u\<close>.
\<close>

theorem readFrame_uninitialised_size:
  assumes "\<not> m_raw r" "good (m_inFile r)" "length (content (m_inFile r)) \<le> pos (m_inFile r)"
  shows "\<not> fst (readFrame u r) \<and> m_frameSize (snd (readFrame u r)) = u
         \<and> unat u \<le> length (m_frameBuf (snd (readFrame u r)))"
  using assms
  by (simp add: readFrame_def readVar_def istream_read_def good_def overlay_def
      le32_decode_le32 Let_def)

theorem readFrame_uninitialised_size_witness:
  "\<exists>r. VideoReader_open (\<lambda>f. Some (le32 0xABCDEF01 @ le32 40 @ bih_bytes (bih_init 4 2)))
          0 0 ''in'' VideoReader_new = Inr r
     \<and> (\<forall>u. \<not> fst (readFrame u r) \<and> m_frameSize (snd (readFrame u r)) = u
           \<and> unat u \<le> length (m_frameBuf (snd (readFrame u r))))"
proof -
  define c where "c = le32 0xABCDEF01 @ le32 40 @ bih_bytes (bih_init 4 2)"
  define r where "r = VideoReader_new\<lparr>m_inFile := \<lparr>content = c, pos = 48,
                    eofbit = False, failbit = False\<rparr>,
              m_raw := False, m_biFormat := bih_bytes (bih_init 4 2), m_headerSize := 48\<rparr>"
  have "VideoReader_open (\<lambda>f. Some c) 0 0 ''in'' VideoReader_new = Inr r"
    using VideoReader_open_container [of "\<lambda>f. Some c" "''in''" 40 "bih_bytes (bih_init 4 2)" "[]" 0 0 VideoReader_new]
    by (simp add: c_def r_def)
  moreover have "\<not> m_raw r" "good (m_inFile r)" "length (content (m_inFile r)) \<le> pos (m_inFile r)"
    by (simp_all add: r_def c_def good_def)
  ultimately show ?thesis
    using readFrame_uninitialised_size [of r] unfolding c_def by blast
qed

section \<open>Unsupported format names\<close>

text \<open>
  Claim C8. \<open>GetDecompFormat\<close> succeeds for every name of the enumerated set, whatever
  the dimensions, and for every other name fails with the error
  \<open>Invalid requested decompressed format: <name>\<close>; \<open>openRaw\<close> then fails with the same
  error, whatever the file. (Names are compared as \<open>strcmp\<close> does: exactly, case
  included.)
\<close>

theorem unsupported_format:
  "(format \<in> set supported_formats \<longrightarrow> (\<exists>b. GetDecompFormat format w h = Inr b)) \<and>
   (format \<notin> set supported_formats \<longrightarrow>
      GetDecompFormat format w h =
        Inl (runtime_error (''Invalid requested decompressed format: '' @ format))
      \<and> openRaw fs infile format w h r =
        Inl (runtime_error (''Invalid requested decompressed format: '' @ format)))"
  by (simp add: supported_formats_def GetDecompFormat_def openRaw_def Let_def)

theorem unsupported_format_witness:
  "(\<exists>b. GetDecompFormat ''v210'' 4 2 = Inr b) \<and>
   GetDecompFormat ''rgb24'' 4 2 = Inl (runtime_error ''Invalid requested decompressed format: rgb24'')
   \<and> openRaw (\<lambda>f. Some []) ''in'' ''rgb24'' 4 2 VideoReader_new =
        Inl (runtime_error ''Invalid requested decompressed format: rgb24'')"
  using unsupported_format [of "''v210''" 4 2 "\<lambda>f. Some []" "''in''" VideoReader_new]
    unsupported_format [of "''rgb24''" 4 2 "\<lambda>f. Some []" "''in''" VideoReader_new]
  by (simp add: supported_formats_def)

section \<open>Rewind\<close>

lemma readFrames_unchanged:
  "content (m_inFile (snd (readFrames us r))) = content (m_inFile r)
   \<and> m_raw (snd (readFrames us r)) = m_raw r
   \<and> m_biFormat (snd (readFrames us r)) = m_biFormat r
   \<and> m_headerSize (snd (readFrames us r)) = m_headerSize r"
proof (induction us arbitrary: r)
  case Nil
  then show ?case by simp
next
  case (Cons u us)
  show ?case
    by (simp only: snd_readFrames_Cons Cons.IH readFrame_unchanged)
qed

lemma complete_frame_cong:
  "m_inFile r = m_inFile r' \<Longrightarrow> m_raw r = m_raw r' \<Longrightarrow> m_biFormat r = m_biFormat r' \<Longrightarrow>
   complete_frame r = complete_frame r'"
  by (simp add: complete_frame_def Let_def)

lemma istream_read_length: "length (fst (istream_read n s)) \<le> n"
  by (simp add: istream_read_def Let_def)

lemma length_overlay: "length got \<le> length buf \<Longrightarrow> length (overlay got buf) = length buf"
  by (simp add: overlay_def)

lemma istream_read_cases:
  "(good (snd (istream_read n s)) \<and> good s \<and> pos (snd (istream_read n s)) = pos s + n
      \<and> n \<le> length (content s) - pos s)
   \<or> (\<not> good (snd (istream_read n s)) \<and> (good s \<longrightarrow> length (content s) - pos s < n))"
  by (auto simp: istream_read_def Let_def good_def min_def split: if_splits)

lemma readVar_cases:
  "(good (snd (readVar u s)) \<and> good s \<and> pos (snd (readVar u s)) = pos s + 4
      \<and> 4 \<le> length (content s) - pos s)
   \<or> (\<not> good (snd (readVar u s)) \<and> (good s \<longrightarrow> length (content s) - pos s < 4))"
  using istream_read_cases [of 4 s] by (cases "istream_read 4 s") (simp add: readVar_def)

lemma VideoReader_open_Inr:
  assumes "VideoReader_open fs u1 u2 infile r0 = Inr r"
  shows "\<not> m_raw r"
    and "m_headerSize r = 8 + of_nat (length (m_biFormat r))"
    and "length (m_biFormat r) < 2 ^ 32"
    and "(good (m_inFile r) \<and> pos (m_inFile r) = 8 + length (m_biFormat r))
       \<or> (\<not> good (m_inFile r) \<and> length (content (m_inFile r)) < 8 + length (m_biFormat r))"
proof -
  obtain bytes where b: "fs infile = Some bytes"
    using assms by (cases "fs infile") (simp_all add: VideoReader_open_def)
  define s0 where "s0 = ifstream_open bytes"
  define s1 where "s1 = snd (readVar u1 s0)"
  define n where "n = fst (readVar u2 s1)"
  define s2 where "s2 = snd (readVar u2 s1)"
  define got where "got = fst (istream_read (unat n) s2)"
  define s3 where "s3 = snd (istream_read (unat n) s2)"
  have r: "r = r0\<lparr>m_inFile := s3, m_raw := False,
      m_biFormat := overlay got (resize (unat n) (m_biFormat r0)), m_headerSize := 8 + n\<rparr>"
    using assms b
    by (simp add: VideoReader_open_def Let_def s0_def s1_def s2_def s3_def n_def got_def
        split: prod.splits if_splits)
  have l: "length (m_biFormat r) = unat n"
    using istream_read_length [of "unat n" s2] by (simp add: r got_def length_overlay)
  show "\<not> m_raw r" by (simp add: r)
  show "m_headerSize r = 8 + of_nat (length (m_biFormat r))" by (simp add: l) (simp add: r)
  show "length (m_biFormat r) < 2 ^ 32" using unsigned_less [of n] by (simp add: l)
  have g0: "good s0" "pos s0 = 0" by (simp_all add: s0_def ifstream_open_def good_def)
  have c: "content s1 = content s0" "content s2 = content s0" "content s3 = content s0"
    by (simp_all add: s1_def s2_def s3_def readVar_content istream_read_content)
  have "(good s3 \<and> pos s3 = 8 + unat n) \<or> (\<not> good s3 \<and> length (content s3) < 8 + unat n)"
    using readVar_cases [of u1 s0] readVar_cases [of u2 s1] istream_read_cases [of "unat n" s2] g0 c
    unfolding s1_def [symmetric] s2_def [symmetric] s3_def [symmetric]
    by auto
  then show "(good (m_inFile r) \<and> pos (m_inFile r) = 8 + length (m_biFormat r))
       \<or> (\<not> good (m_inFile r) \<and> length (content (m_inFile r)) < 8 + length (m_biFormat r))"
    by (simp add: l) (simp add: r)
qed

lemma clear_seekg_good: "good s \<Longrightarrow> clear_seekg (pos s) s = s"
  by (simp add: clear_seekg_def good_def)

lemma complete_frame_not_good: "\<not> good (m_inFile r) \<Longrightarrow> complete_frame r = None"
  by (simp add: complete_frame_def)

lemma complete_frame_past_end:
  "\<not> m_raw r \<Longrightarrow> length (content (m_inFile r)) \<le> pos (m_inFile r) \<Longrightarrow> complete_frame r = None"
  by (simp add: complete_frame_def Let_def)

lemma rewind_after_reads:
  "rewind (snd (readFrames us r)) =
     (snd (readFrames us r))\<lparr>m_inFile := \<lparr>content = content (m_inFile r), pos = unat (m_headerSize r),
        eofbit = False, failbit = False\<rparr>\<rparr>"
  using readFrames_unchanged [of us r]
  by (simp add: rewind_def clear_seekg_def)

lemma length_big_block: "length big_block = 4294967288"
  unfolding big_block_def by (rule length_replicate)

text \<open>
  Claim C5, as amended. Let \<open>r\<close> be the reader after \<open>openRaw\<close>, or after
  \<open>VideoReader::open\<close> on a file whose format block is shorter than \<open>2 ^ 32 - 8\<close> bytes.
  After any number of calls of \<open>readFrame\<close> (also past the last frame) and \<open>rewind\<close>, the
  next \<open>readFrame\<close> gives what the first \<open>readFrame\<close> after opening gave: the same frame
  size and bytes, or end of stream if that was its answer. \<open>rewind\<close> puts the stream at
  the header offset, 8 + the format block's size in container mode and 0 in raw mode, and
  leaves the descriptor as it was read at opening.
\<close>

theorem rewind_replays_first_frame:
  assumes "(VideoReader_open fs u1 u2 infile r0 = Inr r \<and> 8 + length (m_biFormat r) < 2 ^ 32)
           \<or> openRaw fs infile format w h r0 = Inr r"
  shows "frame_result (readFrame v (rewind (snd (readFrames us r)))) = frame_result (readFrame v' r)
       \<and> pos (m_inFile (rewind (snd (readFrames us r)))) =
           (if m_raw r then 0 else 8 + length (m_biFormat r))
       \<and> m_biFormat (rewind (snd (readFrames us r))) = m_biFormat r"
proof -
  define r' where "r' = rewind (snd (readFrames us r))"
  have u: "m_raw r' = m_raw r" "m_biFormat r' = m_biFormat r"
    "m_inFile r' = \<lparr>content = content (m_inFile r), pos = unat (m_headerSize r),
        eofbit = False, failbit = False\<rparr>"
    using readFrames_unchanged [of us r] by (simp_all add: r'_def rewind_after_reads)
  from assms have "complete_frame r' = complete_frame r
      \<and> unat (m_headerSize r) = (if m_raw r then 0 else 8 + length (m_biFormat r))"
  proof
    assume a: "VideoReader_open fs u1 u2 infile r0 = Inr r \<and> 8 + length (m_biFormat r) < 2 ^ 32"
    note o = VideoReader_open_Inr [OF a [THEN conjunct1]]
    have hs: "unat (m_headerSize r) = 8 + length (m_biFormat r)"
      using a [THEN conjunct2] by (simp add: o(2) unat_word_ariths unat_of_nat)
    from o(4) have "complete_frame r' = complete_frame r"
    proof
      assume g: "good (m_inFile r) \<and> pos (m_inFile r) = 8 + length (m_biFormat r)"
      then have "m_inFile r' = m_inFile r" by (simp add: u hs good_def)
      then show ?thesis using u by (intro complete_frame_cong) simp_all
    next
      assume g: "\<not> good (m_inFile r) \<and> length (content (m_inFile r)) < 8 + length (m_biFormat r)"
      then have "complete_frame r' = None"
        using o(1) by (intro complete_frame_past_end) (simp_all add: u hs)
      then show ?thesis using g by (simp add: complete_frame_not_good)
    qed
    then show ?thesis using o(1) hs by simp
  next
    assume a: "openRaw fs infile format w h r0 = Inr r"
    then have "m_raw r" "m_headerSize r = 0" "m_inFile r = \<lparr>content = content (m_inFile r), pos = 0,
        eofbit = False, failbit = False\<rparr>"
      by (auto simp: openRaw_def ifstream_open_def split: sum.splits option.splits)
    then show ?thesis using u by (simp add: complete_frame_cong [of r' r])
  qed
  then show ?thesis using u
    by (simp add: readFrame_complete flip: r'_def)
qed

theorem rewind_replays_first_frame_witness:
  "\<exists>r. VideoReader_open (\<lambda>f. Some (le32 0xABCDEF01 @ le32 40 @ bih_bytes (bih_init 4 2) @ le32 3 @ [1, 2, 3]))
          0 0 ''in'' VideoReader_new = Inr r
     \<and> frame_result (readFrame 0 r) = Some (3, [1, 2, 3])
     \<and> frame_result (readFrame 5 (rewind (snd (readFrames [1, 2, 3] r)))) = Some (3, [1, 2, 3])
     \<and> pos (m_inFile (rewind (snd (readFrames [1, 2, 3] r)))) = 48"
proof -
  define c where "c = le32 0xABCDEF01 @ le32 40 @ bih_bytes (bih_init 4 2) @ le32 3 @ [1, 2, 3]"
  define r where "r = VideoReader_new\<lparr>m_inFile := \<lparr>content = c, pos = 48,
                    eofbit = False, failbit = False\<rparr>,
              m_raw := False, m_biFormat := bih_bytes (bih_init 4 2), m_headerSize := 48\<rparr>"
  have o: "VideoReader_open (\<lambda>f. Some c) 0 0 ''in'' VideoReader_new = Inr r"
    using VideoReader_open_container [of "\<lambda>f. Some c" "''in''" 40 "bih_bytes (bih_init 4 2)" "le32 3 @ [1, 2, 3]" 0 0 VideoReader_new]
    by (simp add: c_def r_def)
  have "complete_frame r = Some (3, [1, 2, 3])"
    by (rule complete_frame_container [where pre = "le32 0xABCDEF01 @ le32 40 @ bih_bytes (bih_init 4 2)" and rest = "[]"])
      (simp_all add: r_def c_def good_def)
  then have f: "frame_result (readFrame 0 r) = Some (3, [1, 2, 3])"
    by (simp add: readFrame_complete)
  have "8 + length (m_biFormat r) < 2 ^ 32" by (simp add: r_def)
  with o have "(VideoReader_open (\<lambda>f. Some c) 0 0 ''in'' VideoReader_new = Inr r \<and> 8 + length (m_biFormat r) < 2 ^ 32)
           \<or> openRaw (\<lambda>f. Some c) ''in'' ''RGB24'' 0 0 VideoReader_new = Inr r" by simp
  from rewind_replays_first_frame [OF this, of 5 "[1, 2, 3]" 0] f o
  show ?thesis unfolding c_def by (auto simp: r_def)
qed

text \<open>The claim as stated, for every stream, fails for a container whose header is
  \<open>2 ^ 32\<close> bytes or longer: \<open>m_headerSize\<close> is a \<open>uint32_t\<close>, and \<open>8 + formatSize\<close> wraps.
  With a format block of \<open>2 ^ 32 - 8\<close> bytes the recorded offset is 0; the first frame
  read after opening is the one-byte frame, the frame read after \<open>rewind\<close> starts at the
  file's magic, taken as the length \<open>0xABCDEF01\<close>.\<close>

theorem rewind_wraps_on_large_header:
  "VideoReader_open (\<lambda>f. Some big_header_file) 0 0 ''in'' VideoReader_new = Inr big_header_reader
   \<and> frame_result (readFrame 0 big_header_reader) = Some (1, [7])
   \<and> map_option fst (frame_result (readFrame 0 (rewind (snd (readFrames [0] big_header_reader)))))
        = Some 0xABCDEF01
   \<and> pos (m_inFile (rewind (snd (readFrames [0] big_header_reader)))) = 0"
proof -
  have o: "VideoReader_open (\<lambda>f. Some big_header_file) 0 0 ''in'' VideoReader_new = Inr big_header_reader"
    using VideoReader_open_container [of "\<lambda>f. Some big_header_file" "''in''" "0xFFFFFFF8" big_block "le32 1 @ [7]" 0 0 VideoReader_new]
    by (simp add: big_header_file_def big_header_reader_def length_big_block)
  have "complete_frame big_header_reader = Some (1, [7])"
    by (rule complete_frame_container [where pre = "le32 0xABCDEF01 @ le32 0xFFFFFFF8 @ big_block" and rest = "[]"])
      (simp_all add: big_header_reader_def big_header_file_def good_def VideoReader_new_def length_big_block)
  then have f: "frame_result (readFrame 0 big_header_reader) = Some (1, [7])"
    by (simp add: readFrame_complete)
  define r1 where "r1 = snd (readFrames [0] big_header_reader)"
  define r' where "r' = rewind r1"
  have b: "content (m_inFile big_header_reader) = big_header_file" "\<not> m_raw big_header_reader"
    "m_headerSize big_header_reader = 0"
    by (simp_all add: big_header_reader_def)
  have "content (m_inFile r1) = big_header_file \<and> \<not> m_raw r1 \<and> m_headerSize r1 = 0"
    using readFrames_unchanged [of "[0]" big_header_reader] b unfolding r1_def [symmetric]
    by simp
  then have u: "m_raw r' = False"
    "m_inFile r' = \<lparr>content = big_header_file, pos = 0, eofbit = False, failbit = False\<rparr>"
    by (simp_all add: r'_def rewind_def clear_seekg_def)
  have "map_option fst (complete_frame r') = Some 0xABCDEF01"
    by (simp add: complete_frame_def u good_def big_header_file_def length_big_block le32_decode_le32 Let_def)
  then show ?thesis using o f u(2) unfolding r'_def r1_def by (simp only: readFrame_complete) simp
qed

section \<open>Arguments\<close>

lemma attempt_Inr [simp]: "attempt (Inr x) f = f x"
  by (simp add: attempt_def)

lemma attempt_Inl [simp]: "attempt (Inl e) f = Inl e"
  by (simp add: attempt_def)

lemma getArg_ok:
  "argmap p arg \<noteq> Some None \<Longrightarrow> getArg p arg defVal = Inr (arg_opt p arg defVal)"
  by (auto simp: getArg_def arg_opt_def split: option.splits)

lemma the_arg_opt: "the (arg_opt p arg (Some d)) = arg_value p arg d"
  by (simp add: arg_opt_def arg_value_def split: option.splits)

lemma arg_opt_None: "argmap p arg \<noteq> Some None \<Longrightarrow> (arg_opt p arg None = None) = (argmap p arg = None)"
  by (auto simp: arg_opt_def split: option.splits)

lemma hasArg_flag:
  "argmap p arg = None \<or> argmap p arg = Some None \<Longrightarrow> hasArg p arg False = Inr (argmap p arg \<noteq> None)"
  by (auto simp: hasArg_def)

lemma argv1:
  "ArgvParser_new [''codecbench'', ''-i'', ''in.avi'', ''-nd'', ''-f'', ''RGB24'', ''-w'', ''640'', ''-h'', ''480''] =
     \<lparr>argmap = [''-i'' \<mapsto> Some ''in.avi'', ''-nd'' \<mapsto> None, ''-f'' \<mapsto> Some ''RGB24'',
                 ''-w'' \<mapsto> Some ''640'', ''-h'' \<mapsto> Some ''480''], arglist = []\<rparr>"
  by (simp add: ArgvParser_new_def is_switch_def)

lemma atoi_examples:
  "atoi ov ''640'' = 640" "atoi ov ''480'' = 480" "atoi ov ''0'' = 0" "atoi ov ''1'' = 1"
  by (simp_all add: atoi_def atoi_value_def isspace_def isdigit_def)

lemma bih_assign_covered:
  "unat (buf_biSize src) \<le> length src \<Longrightarrow>
   bih_assign buf (Some src) = take (unat (buf_biSize src)) src"
  by (simp add: bih_assign_def overlay_def)

lemma atoi_in_int:
  assumes "- (2 ^ 31) \<le> atoi_value s" "atoi_value s < 2 ^ 31"
  shows "atoi ov s = word_of_int (atoi_value s)" and "(atoi ov s = 0) = (atoi_value s = 0)"
proof -
  show a: "atoi ov s = word_of_int (atoi_value s)"
    using assms by (simp add: atoi_def)
  have "sint (word_of_int (atoi_value s) :: 32 word) = atoi_value s"
    using assms by (intro sint_word_of_int_32) simp_all
  then show "(atoi ov s = 0) = (atoi_value s = 0)"
    unfolding a by (metis sint_0 word_of_int_0)
qed

text \<open>
  Claim C10, as amended. On a command line with \<open>-nd\<close> (without a parameter) and without
  \<open>-rawin\<close>, whose other arguments raise no error, \<open>initArguments\<close> does not throw. It
  prints the warning for \<open>-f\<close> when \<open>-f\<close> is given, and the warning for \<open>-w\<close> (\<open>-h\<close>) when
  the C library's \<open>atoi\<close> reads its value as a number other than 0: for a value that
  denotes a number within \<open>int\<close> that is when the number is not 0, for a number outside
  \<open>int\<close> it is as the library at hand answers. It leaves the format null and width and
  height 0, as if the options were absent, the input non-raw and decompression off.
  \<open>initInput\<close> then opens the input as a container and, when the descriptor read from
  the file holds the \<open>biSize\<close> bytes it declares, takes exactly these as the decompressed
  format.
\<close>

theorem nd_ignores_format_options:
  assumes argc: "2 \<le> length argv"
    and nonraw: "argmap (ArgvParser_new argv) ''-rawin'' = None"
    and nd: "argmap (ArgvParser_new argv) ''-nd'' = Some None"
    and ok: "other_arguments_ok (ArgvParser_new argv)"
  shows "\<exists>cb'. initArguments e argv cb =
           Inr ((if argmap (ArgvParser_new argv) ''-f'' \<noteq> None then [warning ''-f''] else [])
                @ (if atoi (atoi_overflow e) (arg_value (ArgvParser_new argv) ''-w'' ''0'') \<noteq> 0
                   then [warning ''-w''] else [])
                @ (if atoi (atoi_overflow e) (arg_value (ArgvParser_new argv) ''-h'' ''0'') \<noteq> 0
                   then [warning ''-h''] else []),
                cb')
         \<and> m_decompFormat cb' = None \<and> m_decompWidth cb' = 0 \<and> m_decompHeight cb' = 0
         \<and> \<not> m_rawin cb' \<and> \<not> m_decompress cb'
         \<and> m_videoReader cb' = m_videoReader cb
         \<and> m_formatDecompressed cb' = m_formatDecompressed cb
         \<and> (\<forall>s. - (2 ^ 31) \<le> atoi_value s \<and> atoi_value s < 2 ^ 31 \<longrightarrow>
               (atoi (atoi_overflow e) s \<noteq> 0) = (atoi_value s \<noteq> 0))
         \<and> (\<forall>e' u1 u2 rd.
               VideoReader_open (filesystem e') u1 u2 (the (m_infile cb')) (m_videoReader cb') = Inr rd
               \<and> unat (buf_biSize (m_biFormat rd)) \<le> length (m_biFormat rd) \<longrightarrow>
               initInput e' u1 u2 cb' =
                 Inr (cb'\<lparr>m_videoReader := rd,
                          m_formatDecompressed := take (unat (buf_biSize (m_biFormat rd))) (m_biFormat rd)\<rparr>))"
proof -
  define p where "p = ArgvParser_new argv"
  obtain f where i: "argmap p ''-i'' = Some (Some f)"
    using ok by (auto simp: other_arguments_ok_def p_def)
  have g: "argmap p ''-f'' \<noteq> Some None" "argmap p ''-w'' \<noteq> Some None" "argmap p ''-h'' \<noteq> Some None"
    "argmap p ''-frames'' \<noteq> Some None" "argmap p ''-loop'' \<noteq> Some None" "argmap p ''-o'' \<noteq> Some None"
    "argmap p ''-i'' \<noteq> Some None"
    using ok i by (simp_all add: other_arguments_ok_def p_def)
  have h1: "hasArg p ''-rawin'' False = Inr False"
    using nonraw by (simp add: hasArg_def p_def)
  have h2: "hasArg p ''-rawout'' False = Inr (argmap p ''-rawout'' \<noteq> None)"
    using ok by (intro hasArg_flag) (simp add: other_arguments_ok_def p_def)
  have h3: "hasArg p ''-nd'' False = Inr True"
    using nd by (simp add: hasArg_def p_def)
  have h4: "argmap p ''-rawout'' = None \<Longrightarrow> hasArg p ''-nc'' False = Inr (argmap p ''-nc'' \<noteq> None)"
    using ok by (intro hasArg_flag) (simp add: other_arguments_ok_def p_def)
  have h4': "(if argmap p ''-rawout'' \<noteq> None then Inr False
              else attempt (hasArg p ''-nc'' False) (\<lambda>b. Inr (\<not> b))) =
           Inr (argmap p ''-rawout'' = None \<and> argmap p ''-nc'' = None)"
    using h4 by auto
  have fi: "arg_opt p ''-i'' None = Some f" by (simp add: arg_opt_def i)
  have az: "\<forall>s. - (2 ^ 31) \<le> atoi_value s \<and> atoi_value s < 2 ^ 31 \<longrightarrow>
               (atoi (atoi_overflow e) s \<noteq> 0) = (atoi_value s \<noteq> 0)"
    using atoi_in_int(2) by blast
  show ?thesis
    unfolding initArguments_def p_def [symmetric]
    using argc az
    by (simp add: Let_def h1 h2 h3 h4' getArg_ok g the_arg_opt arg_opt_None fi initInput_def
        bih_assign_covered del: not_None_eq)
qed

text \<open>A command line with all three options, on a container with a 40-byte descriptor.\<close>

theorem nd_ignores_format_options_witness:
  "\<exists>cb' cb''.
      initArguments (plain_env (\<lambda>f. Some header_only_file) None)
        [''codecbench'', ''-i'', ''in.avi'', ''-nd'', ''-f'', ''RGB24'', ''-w'', ''640'', ''-h'', ''480'']
        (CodecBench_new ()) =
           Inr ([warning ''-f'', warning ''-w'', warning ''-h''], cb')
     \<and> m_decompFormat cb' = None \<and> m_decompWidth cb' = 0 \<and> m_decompHeight cb' = 0
     \<and> initInput (plain_env (\<lambda>f. Some header_only_file) None) 0 0 cb' = Inr cb''
     \<and> m_formatDecompressed cb'' = bih_bytes (bih_init 4 2)"
proof -
  let ?argv = "[''codecbench'', ''-i'', ''in.avi'', ''-nd'', ''-f'', ''RGB24'', ''-w'', ''640'', ''-h'', ''480'']"
  define e where "e = plain_env (\<lambda>f. Some header_only_file) None"
  define cb where "cb = (CodecBench_new () :: (unit, unit) CodecBench)"
  have a1: "2 \<le> length ?argv" by simp
  have a2: "argmap (ArgvParser_new ?argv) ''-rawin'' = None"
    by (simp add: argv1)
  have a3: "argmap (ArgvParser_new ?argv) ''-nd'' = Some None"
    by (simp add: argv1)
  have a4: "other_arguments_ok (ArgvParser_new ?argv)"
    by (simp add: argv1 other_arguments_ok_def)
  have w: "(if argmap (ArgvParser_new ?argv) ''-f'' \<noteq> None then [warning ''-f''] else [])
        @ (if atoi (atoi_overflow e) (arg_value (ArgvParser_new ?argv) ''-w'' ''0'') \<noteq> 0
           then [warning ''-w''] else [])
        @ (if atoi (atoi_overflow e) (arg_value (ArgvParser_new ?argv) ''-h'' ''0'') \<noteq> 0
           then [warning ''-h''] else [])
      = [warning ''-f'', warning ''-w'', warning ''-h'']"
    by (simp add: argv1 arg_value_def atoi_examples)
  from nd_ignores_format_options [OF a1 a2 a3 a4, of e cb]
  obtain cb' where i: "initArguments e ?argv cb = Inr ([warning ''-f'', warning ''-w'', warning ''-h''], cb')"
    and f: "m_decompFormat cb' = None" "m_decompWidth cb' = 0" "m_decompHeight cb' = 0"
      "m_videoReader cb' = m_videoReader cb"
    and n: "\<forall>e' u1 u2 rd.
               VideoReader_open (filesystem e') u1 u2 (the (m_infile cb')) (m_videoReader cb') = Inr rd
               \<and> unat (buf_biSize (m_biFormat rd)) \<le> length (m_biFormat rd) \<longrightarrow>
               initInput e' u1 u2 cb' =
                 Inr (cb'\<lparr>m_videoReader := rd,
                          m_formatDecompressed := take (unat (buf_biSize (m_biFormat rd))) (m_biFormat rd)\<rparr>)"
    unfolding w by blast
  define rd where "rd = VideoReader_new\<lparr>m_inFile := \<lparr>content = header_only_file, pos = 48,
                    eofbit = False, failbit = False\<rparr>,
              m_raw := False, m_biFormat := bih_bytes (bih_init 4 2), m_headerSize := 48\<rparr>"
  have o: "VideoReader_open (filesystem e) 0 0 (the (m_infile cb')) (m_videoReader cb') = Inr rd"
    using VideoReader_open_container [of "filesystem e" "the (m_infile cb')" 40 "bih_bytes (bih_init 4 2)" "[]" 0 0 VideoReader_new]
    by (simp add: e_def plain_env_def header_only_file_def f cb_def CodecBench_new_def rd_def)
  have c: "unat (buf_biSize (m_biFormat rd)) \<le> length (m_biFormat rd)"
    by (simp add: rd_def bih_init_def sizeof_BITMAPINFOHEADER_def)
  have t: "take (unat (buf_biSize (m_biFormat rd))) (m_biFormat rd) = bih_bytes (bih_init 4 2)"
    by (simp add: rd_def bih_init_def sizeof_BITMAPINFOHEADER_def)
  from n o c have "initInput e 0 0 cb' =
      Inr (cb'\<lparr>m_videoReader := rd, m_formatDecompressed := bih_bytes (bih_init 4 2)\<rparr>)"
    unfolding t [symmetric] by blast
  with i f show ?thesis unfolding e_def cb_def by simp
qed

text \<open>The claim as stated, a warning for each such option given, fails for a width or
  height that \<open>atoi\<close> reads as 0: the code tests the parsed value, not the option's
  presence. With \<open>-nd -w 0\<close> nothing is printed, whatever the C library.\<close>

theorem nd_zero_width_no_warning:
  "\<forall>e :: (unit, unit) env.
     map_sum id fst (initArguments e [''codecbench'', ''-i'', ''in.avi'', ''-nd'', ''-w'', ''0'']
       (CodecBench_new ())) = Inr []"
proof
  fix e :: "(unit, unit) env"
  have p: "ArgvParser_new [''codecbench'', ''-i'', ''in.avi'', ''-nd'', ''-w'', ''0''] =
     \<lparr>argmap = [''-i'' \<mapsto> Some ''in.avi'', ''-nd'' \<mapsto> None, ''-w'' \<mapsto> Some ''0''], arglist = []\<rparr>"
    by (simp add: ArgvParser_new_def is_switch_def)
  show "map_sum id fst (initArguments e [''codecbench'', ''-i'', ''in.avi'', ''-nd'', ''-w'', ''0'']
       (CodecBench_new ())) = Inr []"
    by (simp add: initArguments_def p hasArg_def getArg_def atoi_examples Let_def)
qed

section \<open>The stages of the pipeline\<close>

lemma decompressFrame_format: "d_biFormatOut (decompressFrame a data n d) = d_biFormatOut d"
  by (simp add: decompressFrame_def Let_def split: option.splits prod.splits)

lemma decode_stage_off: "\<not> m_decompress (fst st) \<Longrightarrow> decode_stage e st frame = (st, frame)"
  by (cases st; cases frame) (simp add: decode_stage_def)

lemma encode_stage_off: "\<not> m_compress (fst st) \<Longrightarrow> encode_stage e st frame = (st, frame)"
  by (cases st; cases frame) (simp add: encode_stage_def)

lemma decode_stage_result:
  "\<exists>D T data. decode_stage e (cb, l) frame =
      ((cb\<lparr>m_decompressor := D\<rparr>, l\<lparr>decompTimer := T\<rparr>), data,
       (if m_decompress cb then buf_biSizeImage (d_biFormatOut (m_decompressor cb)) else snd frame))
    \<and> d_biFormatOut D = d_biFormatOut (m_decompressor cb)"
proof (cases "m_decompress cb")
  case True
  obtain a b where f: "frame = (a, b)" by (cases frame)
  define D where "D = decompressFrame (vfw_api e) a b (m_decompressor cb)"
  have "decode_stage e (cb, l) frame =
      ((cb\<lparr>m_decompressor := D\<rparr>,
        l\<lparr>decompTimer := Timer_end (counter e (4 * tests l + 1))
              (Timer_begin (counter e (4 * tests l)) (decompTimer l))\<rparr>),
       d_frameBuf D, buf_biSizeImage (d_biFormatOut (m_decompressor cb)))"
    using True by (simp add: decode_stage_def Let_def f D_def decompressFrame_format)
  moreover have "d_biFormatOut D = d_biFormatOut (m_decompressor cb)"
    by (simp add: D_def decompressFrame_format)
  ultimately show ?thesis using True by auto
next
  case False
  show ?thesis
    apply (rule exI [of _ "m_decompressor cb"])
    apply (rule exI [of _ "decompTimer l"])
    apply (rule exI [of _ "fst frame"])
    using False by (simp add: decode_stage_off)
qed

lemma encode_stage_result:
  "\<exists>C T data osz. encode_stage e (cb, l) frame =
      ((cb\<lparr>m_compressor := C\<rparr>, l\<lparr>compTimer := T\<rparr>), data, osz)
    \<and> (\<not> m_compress cb \<longrightarrow> C = m_compressor cb \<and> T = compTimer l \<and> (data, osz) = frame)"
proof (cases "m_compress cb")
  case True
  obtain a b where f: "frame = (a, b)" by (cases frame)
  define C where "C = compressFrame (vfw_api e) a (m_compressor cb)"
  have "encode_stage e (cb, l) frame =
      ((cb\<lparr>m_compressor := C\<rparr>,
        l\<lparr>compTimer := Timer_end (counter e (4 * tests l + 3))
              (Timer_begin (counter e (4 * tests l + 2)) (compTimer l))\<rparr>),
       c_frameData C, c_frameSize C)"
    using True by (simp add: encode_stage_def Let_def f C_def)
  then show ?thesis using True by auto
next
  case False
  show ?thesis
    apply (rule exI [of _ "m_compressor cb"])
    apply (rule exI [of _ "compTimer l"])
    apply (rule exI [of _ "fst frame"])
    apply (rule exI [of _ "snd frame"])
    using False by (simp add: encode_stage_off)
qed

lemma process_frame_result:
  "\<exists>D C W T1 T2 osz. process_frame e (cb, l) =
      (cb\<lparr>m_decompressor := D, m_compressor := C, m_videoWriter := W\<rparr>,
       l\<lparr>decompTimer := T1, compTimer := T2,
         sumInputSize := sumInputSize l + ucast (m_frameSize (m_videoReader cb)),
         sumRawSize := sumRawSize l + ucast (post_decode_size cb),
         sumOutputSize := sumOutputSize l + ucast osz\<rparr>)
    \<and> d_biFormatOut D = d_biFormatOut (m_decompressor cb)
    \<and> (\<not> m_compress cb \<longrightarrow> C = m_compressor cb \<and> T2 = compTimer l \<and> osz = post_decode_size cb)"
proof -
  define frame0 where "frame0 = (m_frameBuf (m_videoReader cb), m_frameSize (m_videoReader cb))"
  define l1 where "l1 = l\<lparr>sumInputSize := sumInputSize l + ucast (snd frame0)\<rparr>"
  obtain D T1 data1 where d: "decode_stage e (cb, l1) frame0 =
      ((cb\<lparr>m_decompressor := D\<rparr>, l1\<lparr>decompTimer := T1\<rparr>), data1, post_decode_size cb)"
    and df: "d_biFormatOut D = d_biFormatOut (m_decompressor cb)"
    using decode_stage_result [of e cb l1 frame0] by (auto simp: post_decode_size_def frame0_def)
  define cb2 where "cb2 = cb\<lparr>m_decompressor := D\<rparr>"
  define l3 where "l3 = l1\<lparr>decompTimer := T1, sumRawSize := sumRawSize l1 + ucast (post_decode_size cb)\<rparr>"
  obtain C T2 data2 osz where c: "encode_stage e (cb2, l3) (data1, post_decode_size cb) =
      ((cb2\<lparr>m_compressor := C\<rparr>, l3\<lparr>compTimer := T2\<rparr>), data2, osz)"
    and cf: "\<not> m_compress cb2 \<longrightarrow> C = m_compressor cb2 \<and> T2 = compTimer l3 \<and> (data2, osz) = (data1, post_decode_size cb)"
    using encode_stage_result [of e cb2 l3 "(data1, post_decode_size cb)"] by auto
  define W where "W = (if m_outfile cb \<noteq> None then writeFrame data2 osz (m_videoWriter cb) else m_videoWriter cb)"
  have "process_frame e (cb, l) =
      (cb\<lparr>m_decompressor := D, m_compressor := C, m_videoWriter := W\<rparr>,
       l\<lparr>decompTimer := T1, compTimer := T2,
         sumInputSize := sumInputSize l + ucast (m_frameSize (m_videoReader cb)),
         sumRawSize := sumRawSize l + ucast (post_decode_size cb),
         sumOutputSize := sumOutputSize l + ucast osz\<rparr>)"
    unfolding process_frame_def
    by (simp add: Let_def d [unfolded frame0_def l1_def, simplified] c [unfolded cb2_def l3_def l1_def frame0_def, simplified] W_def)
  moreover have "\<not> m_compress cb \<longrightarrow> C = m_compressor cb \<and> T2 = compTimer l \<and> osz = post_decode_size cb"
    using cf by (simp add: cb2_def l3_def l1_def)
  ultimately show ?thesis using df by blast
qed


lemma loop_body_cases:
  "(\<exists>rd. loop_body e (cb, l) =
      (cb\<lparr>m_videoReader := rd\<rparr>, l\<lparr>tests := tests l + 1, currentFrameNum := 0, loop := loop l + 1\<rparr>))
   \<or> loop_body e (cb, l) =
        process_frame e
          (cb\<lparr>m_videoReader := snd (readFrame (indeterminate e (tests l)) (m_videoReader cb))\<rparr>,
           l\<lparr>tests := tests l + 1, currentFrameNum := currentFrameNum l + 1,
             numFrames := numFrames l + 1\<rparr>)"
  by (cases "readFrame (indeterminate e (tests l)) (m_videoReader cb)")
     (auto simp: loop_body_def Let_def)

lemma loop_body_no_compress:
  assumes "\<not> m_compress (fst st)"
  shows "\<not> m_compress (fst (loop_body e st))
     \<and> compTimer (snd (loop_body e st)) = compTimer (snd st)
     \<and> sumOutputSize (snd (loop_body e st)) - sumRawSize (snd (loop_body e st))
         = sumOutputSize (snd st) - sumRawSize (snd st)
     \<and> m_formatCompressed (fst (loop_body e st)) = m_formatCompressed (fst st)
     \<and> m_formatDecompressed (fst (loop_body e st)) = m_formatDecompressed (fst st)"
proof -
  obtain cb l where st: "st = (cb, l)" by (cases st)
  from loop_body_cases [of e cb l] show ?thesis
  proof
    assume "\<exists>rd. loop_body e (cb, l) =
      (cb\<lparr>m_videoReader := rd\<rparr>, l\<lparr>tests := tests l + 1, currentFrameNum := 0, loop := loop l + 1\<rparr>)"
    then show ?thesis using assms by (auto simp: st)
  next
    define cb1 where "cb1 = cb\<lparr>m_videoReader := snd (readFrame (indeterminate e (tests l)) (m_videoReader cb))\<rparr>"
    define l1 where "l1 = l\<lparr>tests := tests l + 1, currentFrameNum := currentFrameNum l + 1,
             numFrames := numFrames l + 1\<rparr>"
    assume "loop_body e (cb, l) = process_frame e
          (cb\<lparr>m_videoReader := snd (readFrame (indeterminate e (tests l)) (m_videoReader cb))\<rparr>,
           l\<lparr>tests := tests l + 1, currentFrameNum := currentFrameNum l + 1,
             numFrames := numFrames l + 1\<rparr>)"
    then have lb: "loop_body e st = process_frame e (cb1, l1)" by (simp add: st cb1_def l1_def)
    have nc: "\<not> m_compress cb1" using assms by (simp add: st cb1_def)
    obtain D C W T1 T2 osz where pf: "process_frame e (cb1, l1) =
      (cb1\<lparr>m_decompressor := D, m_compressor := C, m_videoWriter := W\<rparr>,
       l1\<lparr>decompTimer := T1, compTimer := T2,
         sumInputSize := sumInputSize l1 + ucast (m_frameSize (m_videoReader cb1)),
         sumRawSize := sumRawSize l1 + ucast (post_decode_size cb1),
         sumOutputSize := sumOutputSize l1 + ucast osz\<rparr>)"
      and "\<not> m_compress cb1 \<longrightarrow> C = m_compressor cb1 \<and> T2 = compTimer l1 \<and> osz = post_decode_size cb1"
      using process_frame_result [of e cb1 l1] by blast
    then have "T2 = compTimer l1" "osz = post_decode_size cb1" using nc by simp_all
    then show ?thesis using nc by (simp add: lb pf) (simp add: st cb1_def l1_def)
  qed
qed

lemma run_loop_no_compress:
  assumes "run_loop e st = Some st'"
  shows "\<not> m_compress (fst st) \<longrightarrow>
     \<not> m_compress (fst st')
     \<and> compTimer (snd st') = compTimer (snd st)
     \<and> sumOutputSize (snd st') - sumRawSize (snd st') = sumOutputSize (snd st) - sumRawSize (snd st)
     \<and> m_formatCompressed (fst st') = m_formatCompressed (fst st)
     \<and> m_formatDecompressed (fst st') = m_formatDecompressed (fst st)"
  using assms
proof (induction e st st' rule: run_loop.raw_induct [rotated, consumes 1, case_names step])
  case (step run_loop e st st')
  show ?case
  proof (cases "\<not> s_stop e (tests (snd st)) \<and> sless (loop (snd st)) (m_loopCount (fst st))")
    case True
    then have "run_loop e (loop_body e st) = Some st'" using step(2) by simp
    from step(1) [OF this] loop_body_no_compress [of st e] show ?thesis by simp
  next
    case False
    then show ?thesis using step(2) by auto
  qed
qed

lemma process_frame_writes_decoded:
  assumes nc: "\<not> m_compress cb"
    and d: "decode_stage e
         (cb, l\<lparr>sumInputSize := sumInputSize l + ucast (m_frameSize (m_videoReader cb))\<rparr>)
         (m_frameBuf (m_videoReader cb), m_frameSize (m_videoReader cb)) = ((cb2, l2), data, sz)"
  shows "m_videoWriter (fst (process_frame e (cb, l))) =
           (if m_outfile cb \<noteq> None then writeFrame data sz (m_videoWriter cb) else m_videoWriter cb)
       \<and> sumRawSize (snd (process_frame e (cb, l))) = sumRawSize l + ucast sz
       \<and> sumOutputSize (snd (process_frame e (cb, l))) = sumOutputSize l + ucast sz"
proof -
  obtain D T where dd: "((cb2, l2), data, sz) =
      ((cb\<lparr>m_decompressor := D\<rparr>,
        l\<lparr>sumInputSize := sumInputSize l + ucast (m_frameSize (m_videoReader cb)), decompTimer := T\<rparr>),
       data, sz)"
    using decode_stage_result [of e cb "l\<lparr>sumInputSize := sumInputSize l + ucast (m_frameSize (m_videoReader cb))\<rparr>"
        "(m_frameBuf (m_videoReader cb), m_frameSize (m_videoReader cb))"] d
    by auto
  then have cb2: "cb2 = cb\<lparr>m_decompressor := D\<rparr>"
    and l2: "l2 = l\<lparr>sumInputSize := sumInputSize l + ucast (m_frameSize (m_videoReader cb)), decompTimer := T\<rparr>"
    by simp_all
  have nc2: "\<not> m_compress (fst (cb2, l2\<lparr>sumRawSize := sumRawSize l2 + ucast sz\<rparr>))"
    using nc by (simp add: cb2)
  show ?thesis
    unfolding process_frame_def
    using nc by (cases "m_outfile cb") (simp_all add: Let_def d cb2 l2 encode_stage_off)
qed

section \<open>No compression selected\<close>

text \<open>
  Claim C6. Let \<open>initOutput\<close> run with compression requested and \<open>Compressor::init\<close>
  return false. Then \<open>initOutput\<close> raises no error of its own (it can only fail where the
  output file cannot be created), it leaves \<open>m_compress\<close> false and the output descriptor
  equal to the decode-stage descriptor. While \<open>m_compress\<close> is false, every iteration of
  the loop leaves it false and the encode timer untouched, the encode stage hands on the
  frame it is given, and what \<open>process_frame\<close> writes and adds to the output byte count is
  the decode stage's frame, bytes and size. When the run returns, the encode timer is as
  constructed (no sample, no counts), the output byte count equals the post-decode byte
  count, and the descriptors are still equal.
\<close>

theorem no_compression_short_circuit:
  assumes c: "m_compress cb"
    and ci: "Compressor_init (vfw_api e) (m_formatDecompressed cb) (m_compressor cb) = Inr (False, c')"
  shows "(\<forall>ex. initOutput e cb = Inl ex \<longrightarrow>
            (\<exists>outfile. m_outfile cb = Some outfile \<and> \<not> can_create e outfile))
       \<and> (\<forall>cb'. initOutput e cb = Inr cb' \<longrightarrow>
            \<not> m_compress cb' \<and> m_formatCompressed cb' = m_formatDecompressed cb
            \<and> m_formatDecompressed cb' = m_formatDecompressed cb
            \<and> (\<forall>st'. run e cb' = Some st' \<longrightarrow>
                  \<not> m_compress (fst st') \<and> compTimer (snd st') = Timer_new
                  \<and> sumOutputSize (snd st') = sumRawSize (snd st')
                  \<and> m_formatCompressed (fst st') = m_formatDecompressed (fst st')))
       \<and> (\<forall>st. \<not> m_compress (fst st) \<longrightarrow>
            \<not> m_compress (fst (loop_body e st)) \<and> compTimer (snd (loop_body e st)) = compTimer (snd st)
            \<and> (\<forall>frame. encode_stage e st frame = (st, frame)))
       \<and> (\<forall>cb l cb2 l2 data sz.
            \<not> m_compress cb \<and>
            decode_stage e
              (cb, l\<lparr>sumInputSize := sumInputSize l + ucast (m_frameSize (m_videoReader cb))\<rparr>)
              (m_frameBuf (m_videoReader cb), m_frameSize (m_videoReader cb)) = ((cb2, l2), data, sz)
            \<longrightarrow>
              m_videoWriter (fst (process_frame e (cb, l))) =
                (if m_outfile cb \<noteq> None then writeFrame data sz (m_videoWriter cb)
                 else m_videoWriter cb)
              \<and> sumRawSize (snd (process_frame e (cb, l))) = sumRawSize l + ucast sz
              \<and> sumOutputSize (snd (process_frame e (cb, l))) = sumOutputSize l + ucast sz)"
proof (intro conjI allI impI)
  define cb2 where "cb2 = cb\<lparr>m_compress := False, m_compressor := c',
      m_formatCompressed := m_formatDecompressed cb\<rparr>"
  have io: "initOutput e cb =
      (case m_outfile cb of None \<Rightarrow> Inr cb2
       | Some outfile \<Rightarrow>
           attempt (VideoWriter_open (can_create e) outfile
                (if m_rawout cb then None else Some (m_formatDecompressed cb)))
             (\<lambda>w. Inr (cb2\<lparr>m_videoWriter := w\<rparr>)))"
    using c by (simp add: initOutput_def ci cb2_def Let_def split: option.splits)
  {
    fix ex assume "initOutput e cb = Inl ex"
    then show "\<exists>outfile. m_outfile cb = Some outfile \<and> \<not> can_create e outfile"
      by (auto simp: io VideoWriter_open_def attempt_def split: option.splits if_splits)
  }
  {
    fix cb' assume a: "initOutput e cb = Inr cb'"
    then have "cb' = cb2 \<or> (\<exists>w. cb' = cb2\<lparr>m_videoWriter := w\<rparr>)"
      by (auto simp: io attempt_def split: option.splits sum.splits)
    then have f: "\<not> m_compress cb'" "m_formatCompressed cb' = m_formatDecompressed cb"
      "m_formatDecompressed cb' = m_formatDecompressed cb"
      by (auto simp: cb2_def)
    from f show "\<not> m_compress cb'" "m_formatCompressed cb' = m_formatDecompressed cb"
      "m_formatDecompressed cb' = m_formatDecompressed cb" by simp_all
    fix st' assume "run e cb' = Some st'"
    then have "run_loop e (cb', run_locals_init) = Some st'" by (simp add: run_def)
    from run_loop_no_compress [OF this] f
    have r: "\<not> m_compress (fst st')" "compTimer (snd st') = Timer_new"
      "sumOutputSize (snd st') - sumRawSize (snd st') = 0"
      "m_formatCompressed (fst st') = m_formatDecompressed (fst st')"
      by (simp_all add: run_locals_init_def)
    from r show "\<not> m_compress (fst st')" "compTimer (snd st') = Timer_new"
      "m_formatCompressed (fst st') = m_formatDecompressed (fst st')" by simp_all
    from r(3) show "sumOutputSize (snd st') = sumRawSize (snd st')" by simp
  }
  {
    fix st :: "('a, 'b) CodecBench \<times> run_locals" and frame
    assume n: "\<not> m_compress (fst st)"
    from loop_body_no_compress [OF n, of e]
    show "\<not> m_compress (fst (loop_body e st))" "compTimer (snd (loop_body e st)) = compTimer (snd st)"
      by simp_all
    show "encode_stage e st frame = (st, frame)" using n by (rule encode_stage_off)
  }
  {
    fix cb :: "('a, 'b) CodecBench" and l cb2 l2 data sz
    assume a: "\<not> m_compress cb \<and>
            decode_stage e
              (cb, l\<lparr>sumInputSize := sumInputSize l + ucast (m_frameSize (m_videoReader cb))\<rparr>)
              (m_frameBuf (m_videoReader cb), m_frameSize (m_videoReader cb)) = ((cb2, l2), data, sz)"
    from process_frame_writes_decoded [OF a [THEN conjunct1] a [THEN conjunct2]]
    show "m_videoWriter (fst (process_frame e (cb, l))) =
                (if m_outfile cb \<noteq> None then writeFrame data sz (m_videoWriter cb)
                 else m_videoWriter cb)"
      "sumRawSize (snd (process_frame e (cb, l))) = sumRawSize l + ucast sz"
      "sumOutputSize (snd (process_frame e (cb, l))) = sumOutputSize l + ucast sz"
      by simp_all
  }
qed

theorem no_compression_short_circuit_witness:
  "\<exists>cb'. initOutput (plain_env (\<lambda>f. None) None) ((CodecBench_new ())\<lparr>m_compress := True\<rparr>) = Inr cb'
      \<and> \<not> m_compress cb'
      \<and> m_formatCompressed cb' = m_formatDecompressed ((CodecBench_new () :: (unit, unit) CodecBench)\<lparr>m_compress := True\<rparr>)"
proof -
  define e where "e = plain_env (\<lambda>f. None) None"
  define cb where "cb = (CodecBench_new () :: (unit, unit) CodecBench)\<lparr>m_compress := True\<rparr>"
  have f: "m_compress cb" "m_outfile cb = None" "m_compressor cb = Compressor_new ()"
    by (simp_all add: cb_def CodecBench_new_def)
  have ci: "Compressor_init (vfw_api e) (m_formatDecompressed cb) (m_compressor cb) =
      Inr (False, (Compressor_new ())\<lparr>m_compressing := False, m_compvars := ()\<rparr>)"
    by (simp add: Compressor_init_def e_def plain_env_def no_codecs_def f)
  have "\<exists>cb'. initOutput e cb = Inr cb'"
    by (simp add: initOutput_def ci f(1,2) Let_def)
  then show ?thesis
    using no_compression_short_circuit [of cb e, OF f(1) ci] unfolding e_def cb_def by auto
qed

section \<open>The loop and the interrupt\<close>







section \<open>Exit codes\<close>



section \<open>The totals of a looped run\<close>





lemma of_nat_nat_sint: "0 \<le> sint (w :: 32 word) \<Longrightarrow> of_nat (nat (sint w)) = w"
  by simp



















lemma frame_sizes_off:
  "\<not> m_compress cb \<Longrightarrow>
   frame_sizes e cb (\<lambda>d. if m_decompress cb then buf_biSizeImage (d_biFormatOut (m_decompressor cb))
                        else of_nat (length d)) frames"
  by (simp add: frame_sizes_def output_size_def decompressFrame_format Let_def)





















end
